theory Spec2Isabelle
  imports Main "HOL-Library.Word"
begin

section \<open>JavaScript values\<close>

text \<open>
  A JavaScript string is a sequence of UTF-16 code units. The services only ever hold
  strings and missing values in the places the model looks at, so a value is a string or
  \<open>undefined\<close> (\<open>None\<close>); a key that an object does not have reads as \<open>undefined\<close> too.
  A thrown value is an \<open>Error\<close> object, seen through its \<open>message\<close>; a function that can
  throw (an \<open>async\<close> function that can reject) returns a completion, \<open>Inl\<close> the error.
  Nothing but the run itself changes the recipients, the campaign or the stored
  configuration while a run is under way.
\<close>

type_synonym code_unit = "16 word"
type_synonym jsstring = "code_unit list"
type_synonym jsval = "jsstring option"

datatype js_error = Error jsstring

type_synonym 'a completion = "js_error + 'a"

definition js :: "string \<Rightarrow> jsstring" where
  "js s = map (\<lambda>c. of_nat (of_char c)) s"

definition truthy :: "jsval \<Rightarrow> bool" where
  "truthy v = (case v of None \<Rightarrow> False | Some s \<Rightarrow> s \<noteq> [])"

definition js_or :: "jsval \<Rightarrow> jsval \<Rightarrow> jsval" where
  "js_or a b = (if truthy a then a else b)"

definition ToString :: "jsval \<Rightarrow> jsstring" where
  "ToString v = (case v of None \<Rightarrow> js ''undefined'' | Some s \<Rightarrow> s)"

fun show_nat :: "nat \<Rightarrow> jsstring" where
  "show_nat n =
     (if n < 10 then [of_nat (48 + n)] else show_nat (n div 10) @ [of_nat (48 + n mod 10)])"

definition startsWith :: "jsstring \<Rightarrow> jsstring \<Rightarrow> bool" where
  "startsWith s p = (take (length p) s = p)"

section \<open>whatsappService.js: configuration\<close>

record config =
  accountSid :: jsval
  authToken :: jsval
  fromNumber :: jsval
  apiMode :: jsval

text \<open>The three variables of \<open>process.env\<close> that \<open>DEFAULT_CONFIG\<close> reads.\<close>

record process_env =
  REACT_APP_TWILIO_ACCOUNT_SID :: jsval
  REACT_APP_TWILIO_AUTH_TOKEN :: jsval
  REACT_APP_TWILIO_WHATSAPP_FROM :: jsval

definition DEFAULT_CONFIG :: "process_env \<Rightarrow> config" where
  "DEFAULT_CONFIG env =
     \<lparr>accountSid = js_or (REACT_APP_TWILIO_ACCOUNT_SID env) (Some []),
      authToken = js_or (REACT_APP_TWILIO_AUTH_TOKEN env) (Some []),
      fromNumber = js_or (REACT_APP_TWILIO_WHATSAPP_FROM env) (Some []),
      apiMode = Some (js ''twilio'')\<rparr>"

definition WHATSAPP_CONFIG_KEY :: jsstring where
  "WHATSAPP_CONFIG_KEY = js ''afroboost_whatsapp_config''"

text \<open>
  What \<open>JSON.parse\<close> returns: \<open>null\<close>, or any other value seen through the four
  properties the service reads (a number, a string or an array has none of them).
\<close>

datatype json = JNull | JValue config

text \<open>
  A Twilio request as the service builds it, the response \<open>fetch\<close> gives (\<open>response.ok\<close>
  is a status from 200 to 299), and the parsed body of that response.
\<close>

record twilio_request =
  url :: jsstring
  authorization :: jsstring
  formData :: "(jsstring \<times> jsstring) list"

record twilio_data =
  message :: jsval
  code :: jsval
  sid :: jsval
  status :: jsval

datatype fetch_outcome =
    FetchRejects js_error
  | Response nat "twilio_data completion"

text \<open>
  The host: the environment variables, \<open>localStorage.getItem\<close> and \<open>JSON.parse\<close>
  (either may throw), \<open>btoa\<close> (throws outside Latin-1) and the network, which answers a
  request knowing the requests sent before it.
\<close>

record host =
  env :: process_env
  getItem :: "jsstring \<Rightarrow> jsval completion"
  JSON_parse :: "jsstring \<Rightarrow> json completion"
  btoa :: "jsstring \<Rightarrow> jsstring completion"
  fetch :: "twilio_request list \<Rightarrow> twilio_request \<Rightarrow> fetch_outcome"

text \<open>
  The \<open>try\<close> block of \<open>getWhatsAppConfig\<close>: \<open>Some config\<close> when it returns, \<open>None\<close>
  when control leaves it at its end, \<open>Inl\<close> when it throws (reading a property of
  \<open>null\<close> is a TypeError).
\<close>

definition getWhatsAppConfig_try :: "host \<Rightarrow> config option completion" where
  "getWhatsAppConfig_try h =
     (case getItem h WHATSAPP_CONFIG_KEY of
        Inl e \<Rightarrow> Inl e
      | Inr stored \<Rightarrow>
          if truthy stored then
            (case JSON_parse h (the stored) of
               Inl e \<Rightarrow> Inl e
             | Inr JNull \<Rightarrow> Inl (Error (js ''Cannot read properties of null''))
             | Inr (JValue config) \<Rightarrow>
                 if truthy (accountSid config) \<and> truthy (authToken config)
                    \<and> truthy (fromNumber config)
                 then Inr (Some config)
                 else Inr None)
          else Inr None)"

definition getWhatsAppConfig :: "host \<Rightarrow> config completion" where
  "getWhatsAppConfig h =
     (case getWhatsAppConfig_try h of
        Inr (Some config) \<Rightarrow> Inr config
      | Inr None \<Rightarrow> Inr (DEFAULT_CONFIG (env h))
      | Inl e \<Rightarrow> Inr (DEFAULT_CONFIG (env h)))"

definition isWhatsAppConfigured :: "host \<Rightarrow> bool completion" where
  "isWhatsAppConfigured h =
     (case getWhatsAppConfig h of
        Inl e \<Rightarrow> Inl e
      | Inr config \<Rightarrow>
          Inr (truthy (accountSid config) \<and> truthy (authToken config)
               \<and> truthy (fromNumber config)))"

section \<open>whatsappService.js: formatPhoneE164\<close>

text \<open>The class \<open>[^\d+]\<close> removes every code unit but the ASCII digits and \<open>+\<close>.\<close>

definition is_digit :: "code_unit \<Rightarrow> bool" where
  "is_digit c = (0x30 \<le> c \<and> c \<le> 0x39)"

definition digit_or_plus :: "code_unit \<Rightarrow> bool" where
  "digit_or_plus c = (is_digit c \<or> c = 0x2B)"

definition formatPhoneE164 :: "jsval \<Rightarrow> jsstring" where
  "formatPhoneE164 phone =
     (if \<not> truthy phone then []
      else
        let cleaned = filter digit_or_plus (the phone) in
        if \<not> startsWith cleaned (js ''+'') then
          if startsWith cleaned (js ''0'') then js ''+41'' @ drop 1 cleaned
          else if length cleaned > 10 then js ''+'' @ cleaned
          else js ''+41'' @ cleaned
        else cleaned)"

section \<open>Personalisation: split and replace\<close>

text \<open>\<open>name.split(' ')\<close>: the pieces between the U+0020 code units, never an empty list.\<close>

fun split_space :: "jsstring \<Rightarrow> jsstring list" where
  "split_space [] = [[]]"
| "split_space (c # cs) =
     (if c = 0x20 then [] # split_space cs
      else (case split_space cs of
              [] \<Rightarrow> [[c]]
            | w # ws \<Rightarrow> (c # w) # ws))"

text \<open>
  The pattern of the regular expression, with flags \<open>g\<close> and \<open>i\<close>: eight code units,
  \<open>{pr\<close>, U+00E9 and \<open>nom}\<close>. Under the
  \<open>i\<close> flag a code unit matches a pattern unit when their upper-case forms are equal;
  for the units of this pattern those are the unit itself and, for a letter, its capital
  (no code unit above U+007F has an ASCII canonical form, and only U+00E9 and U+00C9
  have the form U+00C9).
\<close>

definition placeholder :: jsstring where
  "placeholder = js ''{pr'' @ [0xE9] @ js ''nom}''"

definition upper_unit :: "code_unit \<Rightarrow> code_unit" where
  "upper_unit c = (if (0x61 \<le> c \<and> c \<le> 0x7A) \<or> c = 0xE9 then c - 0x20 else c)"

fun match_at :: "jsstring \<Rightarrow> jsstring \<Rightarrow> bool" where
  "match_at [] s = True"
| "match_at (p # ps) [] = False"
| "match_at (p # ps) (c # cs) = ((c = p \<or> c = upper_unit p) \<and> match_at ps cs)"

text \<open>
  \<open>GetSubstitution\<close> for a pattern without capture groups: in the replacement text
  \<open>$$\<close> stands for \<open>$\<close>, \<open>$&\<close> for the matched text, \<open>$`\<close> for what precedes the match
  and \<open>$'\<close> for what follows it; \<open>$\<close> before anything else is itself.
\<close>

fun GetSubstitution :: "jsstring \<Rightarrow> jsstring \<Rightarrow> nat \<Rightarrow> jsstring \<Rightarrow> jsstring" where
  "GetSubstitution matched str position [] = []"
| "GetSubstitution matched str position [c] = [c]"
| "GetSubstitution matched str position (c # d # rest) =
     (if c = 0x24 \<and> d = 0x24 then 0x24 # GetSubstitution matched str position rest
      else if c = 0x24 \<and> d = 0x60 then
        take position str @ GetSubstitution matched str position rest
      else if c = 0x24 \<and> d = 0x26 then
        matched @ GetSubstitution matched str position rest
      else if c = 0x24 \<and> d = 0x27 then
        drop (position + length matched) str @ GetSubstitution matched str position rest
      else c # GetSubstitution matched str position (d # rest))"

text \<open>
  \<open>str.replace\<close> with that pattern and a replacement text: the matches are found from left to
  right, each search starting where the last match ended.
\<close>

function replace_prenom_from :: "jsstring \<Rightarrow> jsstring \<Rightarrow> nat \<Rightarrow> jsstring" where
  "replace_prenom_from str replacement position =
     (if length str \<le> position then []
      else if match_at placeholder (drop position str) then
        GetSubstitution (take (length placeholder) (drop position str)) str position replacement
          @ replace_prenom_from str replacement (position + length placeholder)
      else str ! position # replace_prenom_from str replacement (position + 1))"
  by pat_completeness auto
termination
  by (relation "measure (\<lambda>(str, replacement, position). length str - position)")
     (auto simp: placeholder_def)

declare replace_prenom_from.simps [simp del]

definition replace_prenom :: "jsstring \<Rightarrow> jsstring \<Rightarrow> jsstring" where
  "replace_prenom str replacement = replace_prenom_from str replacement 0"

text \<open>
  The personalisation step shared by \<open>sendWhatsAppMessage\<close> (\<open>contactName\<close>) and
  \<open>sendEmail\<close> (\<open>to_name\<close>).
\<close>

definition personalize :: "jsstring \<Rightarrow> jsval \<Rightarrow> jsstring" where
  "personalize template contactName =
     (if truthy contactName then
        let firstName = hd (split_space (the contactName)) in
        replace_prenom template firstName
      else template)"

section \<open>whatsappService.js: sendWhatsAppMessage\<close>

record wa_params =
  to :: jsval
  message :: jsstring
  mediaUrl :: jsval
  contactName :: jsval

text \<open>
  The object a single send resolves to: \<open>success\<close>, and whichever of \<open>sid\<close>, \<open>status\<close>,
  \<open>error\<close> and \<open>code\<close> it carries.
\<close>

record send_result =
  success :: bool
  sid :: jsval
  status :: jsval
  error :: jsval
  code :: jsval

definition failure :: "jsval \<Rightarrow> jsval \<Rightarrow> send_result" where
  "failure reason c =
     \<lparr>success = False, sid = None, status = None, error = reason, code = c\<rparr>"

definition not_configured_message :: jsstring where
  "not_configured_message =
     js ''WhatsApp API non configur'' @ [0xE9] @ js ''. Veuillez configurer les cl'' @ [0xE9]
       @ js ''s dans l'' @ [0x27] @ js ''onglet Campagnes.''"

definition invalid_number_message :: jsstring where
  "invalid_number_message =
     js ''Num'' @ [0xE9] @ js ''ro de t'' @ [0xE9] @ js ''l'' @ [0xE9] @ js ''phone invalide''"

definition response_ok :: "nat \<Rightarrow> bool" where
  "response_ok st = (200 \<le> st \<and> st \<le> 299)"

text \<open>
  \<open>sendWhatsAppMessage\<close>, threading the list of requests that went to the network. The
  calls of \<open>console.error\<close> are left out.
\<close>

definition sendWhatsAppMessage ::
  "host \<Rightarrow> wa_params \<Rightarrow> twilio_request list
     \<Rightarrow> send_result completion \<times> twilio_request list" where
  "sendWhatsAppMessage h params network =
     (case getWhatsAppConfig h of
        Inl e \<Rightarrow> (Inl e, network)
      | Inr config \<Rightarrow>
          if \<not> truthy (accountSid config) \<or> \<not> truthy (authToken config)
             \<or> \<not> truthy (fromNumber config)
          then (Inl (Error not_configured_message), network)
          else
            let toNumber = formatPhoneE164 (to params) in
            if toNumber = [] \<or> length toNumber < 10
            then (Inr (failure (Some invalid_number_message) None), network)
            else
              let personalizedMessage =
                    personalize (wa_params.message params) (contactName params);
                  form =
                    [(js ''From'', js ''whatsapp:'' @ formatPhoneE164 (fromNumber config)),
                     (js ''To'', js ''whatsapp:'' @ toNumber),
                     (js ''Body'', personalizedMessage)]
                    @ (if truthy (wa_params.mediaUrl params)
                       then [(js ''MediaUrl'', the (wa_params.mediaUrl params))]
                       else [])
              in
              (case btoa h (ToString (accountSid config) @ js '':''
                              @ ToString (authToken config)) of
                 Inl (Error m) \<Rightarrow> (Inr (failure (Some m) None), network)
               | Inr credentials \<Rightarrow>
                   let request =
                         \<lparr>url = js ''https://api.twilio.com/2010-04-01/Accounts/''
                                  @ ToString (accountSid config) @ js ''/Messages.json'',
                          authorization = js ''Basic '' @ credentials,
                          formData = form\<rparr>
                   in
                   (case fetch h network request of
                      FetchRejects (Error m) \<Rightarrow>
                        (Inr (failure (Some m) None), network @ [request])
                    | Response st body \<Rightarrow>
                        (case body of
                           Inl (Error m) \<Rightarrow>
                             (Inr (failure (Some m) None), network @ [request])
                         | Inr data \<Rightarrow>
                             if \<not> response_ok st then
                               (Inr (failure
                                       (js_or (twilio_data.message data)
                                          (Some (js ''HTTP '' @ show_nat st)))
                                       (twilio_data.code data)),
                                network @ [request])
                             else
                               (Inr \<lparr>success = True, sid = twilio_data.sid data,
                                      status = twilio_data.status data,
                                      error = None, code = None\<rparr>,
                                network @ [request])))))"

section \<open>whatsappService.js: sendBulkWhatsApp\<close>

record campaign =
  message :: jsstring
  mediaUrl :: jsval
  name :: jsval

text \<open>A recipient carries \<open>name\<close> and the address of either service.\<close>

record recipient =
  phone :: jsval
  email :: jsval
  name :: jsval

record wa_detail =
  phone :: jsval
  name :: jsval
  status :: jsstring
  sid :: jsval
  error :: jsval

record 'd results =
  sent :: nat
  failed :: nat
  errors :: "jsstring list"
  details :: "'d list"

text \<open>
  What a run does besides computing its result, in order: a call of \<open>onProgress\<close> with its
  arguments, a call of the single send with its parameters, a wait of so many
  milliseconds. \<open>service\<close> is the state the single send works on.
\<close>

datatype phase = sending | completed

datatype 'p event = Progress nat nat phase jsval | Attempt 'p | Delay nat

record ('p, 's) world =
  events :: "'p event list"
  service :: 's

text \<open>
  The caller's callback returns or throws. \<open>notify\<close> is
  \<open>if (onProgress) { onProgress(...) }\<close>.
\<close>

type_synonym callback = "nat \<Rightarrow> nat \<Rightarrow> phase \<Rightarrow> jsval \<Rightarrow> unit completion"

definition notify ::
  "callback option \<Rightarrow> nat \<Rightarrow> nat \<Rightarrow> phase \<Rightarrow> jsval \<Rightarrow> ('p, 's) world
     \<Rightarrow> unit completion \<times> ('p, 's) world" where
  "notify onProgress current tot ph label w =
     (case onProgress of
        None \<Rightarrow> (Inr (), w)
      | Some f \<Rightarrow>
          (f current tot ph label,
           w\<lparr>events := events w @ [Progress current tot ph label]\<rparr>))"

definition sleep :: "nat \<Rightarrow> ('p, 's) world \<Rightarrow> ('p, 's) world" where
  "sleep ms w = w\<lparr>events := events w @ [Delay ms]\<rparr>"

type_synonym wa_send =
  "wa_params \<Rightarrow> twilio_request list \<Rightarrow> send_result completion \<times> twilio_request list"

type_synonym wa_world = "(wa_params, twilio_request list) world"

text \<open>The argument of the single send for one recipient.\<close>

definition wa_params_of :: "recipient \<Rightarrow> campaign \<Rightarrow> wa_params" where
  "wa_params_of r c =
     \<lparr>to = recipient.phone r, message = campaign.message c,
      mediaUrl = campaign.mediaUrl c, contactName = recipient.name r\<rparr>"

text \<open>
  What the body of the loop does to \<open>results\<close> once the single send has settled: the
  two branches on \<open>result.success\<close>, and the \<open>catch\<close> block for a send that threw.
\<close>

definition wa_record ::
  "recipient \<Rightarrow> send_result completion \<Rightarrow> wa_detail results \<Rightarrow> wa_detail results" where
  "wa_record r outcome results =
     (case outcome of
        Inr result \<Rightarrow>
          if success result then
            results\<lparr>sent := sent results + 1,
              details := details results @
                [\<lparr>phone = recipient.phone r, name = recipient.name r,
                  status = js ''sent'', sid = send_result.sid result, error = None\<rparr>]\<rparr>
          else
            results\<lparr>failed := failed results + 1,
              errors := errors results @
                [ToString (recipient.phone r) @ js '': ''
                   @ ToString (send_result.error result)],
              details := details results @
                [\<lparr>phone = recipient.phone r, name = recipient.name r,
                  status = js ''failed'', sid = None,
                  error = send_result.error result\<rparr>]\<rparr>
      | Inl (Error m) \<Rightarrow>
          results\<lparr>failed := failed results + 1,
            errors := errors results @ [ToString (recipient.phone r) @ js '': '' @ m],
            details := details results @
              [\<lparr>phone = recipient.phone r, name = recipient.name r,
                status = js ''failed'', sid = None, error = Some m\<rparr>]\<rparr>)"

text \<open>
  The \<open>for\<close> loop of \<open>sendBulkWhatsApp\<close> from index \<open>i\<close> on, over the recipients still to
  come; \<open>tot\<close> is \<open>recipients.length\<close>, which the source also names \<open>total\<close>. \<open>send\<close> is
  the function the loop calls for one recipient, \<open>sendWhatsAppMessage\<close> in the module.
  The call of \<open>onProgress\<close> stands before the \<open>try\<close>, so what it throws leaves the loop.
\<close>

fun sendBulkWhatsApp_loop ::
  "wa_send \<Rightarrow> campaign \<Rightarrow> callback option \<Rightarrow> nat \<Rightarrow> nat \<Rightarrow> recipient list
     \<Rightarrow> wa_detail results \<Rightarrow> wa_world \<Rightarrow> wa_detail results completion \<times> wa_world" where
  "sendBulkWhatsApp_loop send c onProgress tot i [] results w = (Inr results, w)"
| "sendBulkWhatsApp_loop send c onProgress tot i (r # rest) results w =
     (case notify onProgress (i + 1) tot sending
             (js_or (recipient.name r) (recipient.phone r)) w of
        (Inl e, w1) \<Rightarrow> (Inl e, w1)
      | (Inr u, w1) \<Rightarrow>
          let params = wa_params_of r c;
              (outcome, network) = send params (service w1);
              w2 = w1\<lparr>events := events w1 @ [Attempt params], service := network\<rparr>;
              results2 = wa_record r outcome results;
              w3 = (if i < tot - 1 then sleep 500 w2 else w2)
          in sendBulkWhatsApp_loop send c onProgress tot (i + 1) rest results2 w3)"

definition sendBulkWhatsApp_via ::
  "wa_send \<Rightarrow> host \<Rightarrow> recipient list \<Rightarrow> campaign \<Rightarrow> callback option \<Rightarrow> wa_world
     \<Rightarrow> wa_detail results completion \<times> wa_world" where
  "sendBulkWhatsApp_via send h recipients c onProgress w =
     (let results = \<lparr>sent = 0, failed = 0, errors = [], details = []\<rparr>;
          tot = length recipients
      in
      case isWhatsAppConfigured h of
        Inl e \<Rightarrow> (Inl e, w)
      | Inr configured \<Rightarrow>
          if \<not> configured then
            (Inr (results\<lparr>failed := tot,
                    errors := [js ''WhatsApp API non configur'' @ [0xE9]]\<rparr>), w)
          else
            (case sendBulkWhatsApp_loop send c onProgress tot 0 recipients results w of
               (Inl e, w1) \<Rightarrow> (Inl e, w1)
             | (Inr results1, w1) \<Rightarrow>
                 (case notify onProgress tot tot completed None w1 of
                    (Inl e, w2) \<Rightarrow> (Inl e, w2)
                  | (Inr u, w2) \<Rightarrow> (Inr results1, w2))))"

definition sendBulkWhatsApp ::
  "host \<Rightarrow> recipient list \<Rightarrow> campaign \<Rightarrow> callback option \<Rightarrow> wa_world
     \<Rightarrow> wa_detail results completion \<times> wa_world" where
  "sendBulkWhatsApp h = sendBulkWhatsApp_via (sendWhatsAppMessage h) h"

section \<open>emailService.js\<close>

record emailjs_config =
  serviceId :: jsval
  templateId :: jsval
  publicKey :: jsval

record email_params =
  to_email :: jsval
  to_name :: jsval
  subject :: jsval
  message :: jsstring
  media_url :: jsval

text \<open>
  The calls the email service makes outside itself: the request for the stored
  configuration, \<open>emailjs.init\<close>, and \<open>emailjs.send\<close> with the service and template
  identifiers, the template parameters and the public key.
\<close>

datatype email_call =
    FetchConfig jsstring
  | Init jsstring
  | Send jsval jsval "(jsstring \<times> jsval) list" jsval

text \<open>
  The answer to the configuration request (\<open>response.json()\<close> may reject, or give
  \<open>null\<close>), and the way \<open>emailjs.send\<close> settles: it resolves, or rejects with an error
  seen through its \<open>text\<close> and \<open>message\<close>.
\<close>

datatype config_response =
    ConfigFetchRejects js_error
  | ConfigResponse nat "emailjs_config option completion"

datatype emailjs_outcome = Resolves | Rejects jsval jsval

record email_host =
  API :: jsstring
  fetch_config :: "email_call list \<Rightarrow> config_response"
  emailjs_send :: "email_call list \<Rightarrow> email_call \<Rightarrow> emailjs_outcome"

text \<open>The module's variable \<open>cachedConfig\<close> (\<open>None\<close> is \<open>null\<close>) and the calls made so far.\<close>

record email_state =
  cachedConfig :: "emailjs_config option"
  calls :: "email_call list"

definition empty_emailjs_config :: emailjs_config where
  "empty_emailjs_config = \<lparr>serviceId = Some [], templateId = Some [], publicKey = Some []\<rparr>"

definition getEmailJSConfig ::
  "email_host \<Rightarrow> email_state \<Rightarrow> emailjs_config option \<times> email_state" where
  "getEmailJSConfig h st =
     (let st1 = st\<lparr>calls := calls st @ [FetchConfig (API h @ js ''/api/emailjs-config'')]\<rparr> in
      case fetch_config h (calls st) of
        ConfigFetchRejects e \<Rightarrow> (Some empty_emailjs_config, st1)
      | ConfigResponse st_code body \<Rightarrow>
          if response_ok st_code then
            (case body of
               Inl e \<Rightarrow> (Some empty_emailjs_config, st1)
             | Inr parsed \<Rightarrow> (parsed, st1\<lparr>cachedConfig := parsed\<rparr>))
          else (Some empty_emailjs_config, st1))"

definition initEmailJS :: "email_state \<Rightarrow> bool \<times> email_state" where
  "initEmailJS st =
     (let key = (case cachedConfig st of None \<Rightarrow> Some [] | Some config \<Rightarrow> publicKey config) in
      if truthy key then (True, st\<lparr>calls := calls st @ [Init (the key)]\<rparr>)
      else (False, st))"

definition email_not_configured_message :: jsstring where
  "email_not_configured_message =
     js ''EmailJS non configur'' @ [0xE9] @ js ''. Veuillez configurer les cl'' @ [0xE9]
       @ js ''s dans l'' @ [0x27] @ js ''onglet Campagnes.''"

text \<open>The text put before the media link: two line feeds, U+1F517, \<open>Voir le visuel:\<close>.\<close>

definition media_link_prefix :: jsstring where
  "media_link_prefix = [0x0A, 0x0A, 0xD83D, 0xDD17] @ js '' Voir le visuel: ''"

definition sendEmail ::
  "email_host \<Rightarrow> email_params \<Rightarrow> email_state \<Rightarrow> send_result completion \<times> email_state" where
  "sendEmail h params st =
     (let (config, st1) =
            (case cachedConfig st of
               Some cached \<Rightarrow> (Some cached, st)
             | None \<Rightarrow> getEmailJSConfig h st)
      in
      case config of
        None \<Rightarrow> (Inl (Error (js ''Cannot read properties of null'')), st1)
      | Some cfg \<Rightarrow>
          if \<not> truthy (serviceId cfg) \<or> \<not> truthy (templateId cfg)
             \<or> \<not> truthy (publicKey cfg)
          then (Inl (Error email_not_configured_message), st1)
          else
            let personalizedMessage =
                  personalize (email_params.message params) (to_name params);
                fullMessage =
                  (if truthy (media_url params)
                   then personalizedMessage @ media_link_prefix @ ToString (media_url params)
                   else personalizedMessage);
                templateParams =
                  [(js ''to_email'', to_email params),
                   (js ''to_name'', js_or (to_name params) (Some (js ''Client''))),
                   (js ''subject'', js_or (subject params) (Some (js ''Afroboost - Message''))),
                   (js ''message'', Some fullMessage),
                   (js ''from_name'', Some (js ''Afroboost'')),
                   (js ''reply_to'', Some (js ''contact.artboost@gmail.com''))];
                call = Send (serviceId cfg) (templateId cfg) templateParams (publicKey cfg);
                st2 = st1\<lparr>calls := calls st1 @ [call]\<rparr>
            in
            (case emailjs_send h (calls st1) call of
               Resolves \<Rightarrow>
                 (Inr \<lparr>success = True, sid = None, status = None, error = None,
                        code = None\<rparr>, st2)
             | Rejects txt msg \<Rightarrow> (Inr (failure (js_or txt msg) None), st2)))"

record email_detail =
  email :: jsval
  name :: jsval
  status :: jsstring
  error :: jsval

type_synonym email_send =
  "email_params \<Rightarrow> email_state \<Rightarrow> send_result completion \<times> email_state"

type_synonym email_world = "(email_params, email_state) world"

definition email_params_of :: "recipient \<Rightarrow> campaign \<Rightarrow> email_params" where
  "email_params_of r c =
     \<lparr>to_email = recipient.email r, to_name = recipient.name r,
      subject = campaign.name c, message = campaign.message c,
      media_url = campaign.mediaUrl c\<rparr>"

definition email_record ::
  "recipient \<Rightarrow> send_result completion \<Rightarrow> email_detail results
     \<Rightarrow> email_detail results" where
  "email_record r outcome results =
     (case outcome of
        Inr result \<Rightarrow>
          if success result then
            results\<lparr>sent := sent results + 1,
              details := details results @
                [\<lparr>email = recipient.email r, name = recipient.name r,
                  status = js ''sent'', error = None\<rparr>]\<rparr>
          else
            results\<lparr>failed := failed results + 1,
              errors := errors results @
                [ToString (recipient.email r) @ js '': ''
                   @ ToString (send_result.error result)],
              details := details results @
                [\<lparr>email = recipient.email r, name = recipient.name r,
                  status = js ''failed'', error = send_result.error result\<rparr>]\<rparr>
      | Inl (Error m) \<Rightarrow>
          results\<lparr>failed := failed results + 1,
            errors := errors results @ [ToString (recipient.email r) @ js '': '' @ m],
            details := details results @
              [\<lparr>email = recipient.email r, name = recipient.name r,
                status = js ''failed'', error = Some m\<rparr>]\<rparr>)"

text \<open>The \<open>for\<close> loop of \<open>sendBulkEmails\<close>, as that of \<open>sendBulkWhatsApp\<close>.\<close>

fun sendBulkEmails_loop ::
  "email_send \<Rightarrow> campaign \<Rightarrow> callback option \<Rightarrow> nat \<Rightarrow> nat \<Rightarrow> recipient list
     \<Rightarrow> email_detail results \<Rightarrow> email_world
     \<Rightarrow> email_detail results completion \<times> email_world" where
  "sendBulkEmails_loop send c onProgress tot i [] results w = (Inr results, w)"
| "sendBulkEmails_loop send c onProgress tot i (r # rest) results w =
     (case notify onProgress (i + 1) tot sending
             (js_or (recipient.name r) (recipient.email r)) w of
        (Inl e, w1) \<Rightarrow> (Inl e, w1)
      | (Inr u, w1) \<Rightarrow>
          let params = email_params_of r c;
              (outcome, st) = send params (service w1);
              w2 = w1\<lparr>events := events w1 @ [Attempt params], service := st\<rparr>;
              results2 = email_record r outcome results;
              w3 = (if i < tot - 1 then sleep 200 w2 else w2)
          in sendBulkEmails_loop send c onProgress tot (i + 1) rest results2 w3)"

definition sendBulkEmails_via ::
  "email_send \<Rightarrow> email_host \<Rightarrow> recipient list \<Rightarrow> campaign \<Rightarrow> callback option
     \<Rightarrow> email_world \<Rightarrow> email_detail results completion \<times> email_world" where
  "sendBulkEmails_via send h recipients c onProgress w =
     (let results = \<lparr>sent = 0, failed = 0, errors = [], details = []\<rparr>;
          tot = length recipients;
          st1 = (if cachedConfig (service w) = None
                 then snd (getEmailJSConfig h (service w))
                 else service w);
          (initialised, st2) = initEmailJS st1;
          w0 = w\<lparr>service := st2\<rparr>
      in
      if \<not> initialised then
        (Inr (results\<lparr>failed := tot, errors := [js ''EmailJS non configur'' @ [0xE9]]\<rparr>), w0)
      else
        (case sendBulkEmails_loop send c onProgress tot 0 recipients results w0 of
           (Inl e, w1) \<Rightarrow> (Inl e, w1)
         | (Inr results1, w1) \<Rightarrow>
             (case notify onProgress tot tot completed None w1 of
                (Inl e, w2) \<Rightarrow> (Inl e, w2)
              | (Inr u, w2) \<Rightarrow> (Inr results1, w2))))"

definition sendBulkEmails ::
  "email_host \<Rightarrow> recipient list \<Rightarrow> campaign \<Rightarrow> callback option \<Rightarrow> email_world
     \<Rightarrow> email_detail results completion \<times> email_world" where
  "sendBulkEmails h = sendBulkEmails_via (sendEmail h) h"

section \<open>The renderer as the specification words it\<close>

text \<open>
  The specification's Message Renderer, for comparison with \<open>personalize\<close>: every
  occurrence of the placeholder, matched without regard to case, is replaced by the first
  whitespace-delimited token of the name, put in as it is; without a name the template
  stays. White space is what JavaScript counts as white space or a line terminator.
\<close>

definition is_whitespace :: "code_unit \<Rightarrow> bool" where
  "is_whitespace c =
     (c \<in> {0x09, 0x0A, 0x0B, 0x0C, 0x0D, 0x20, 0xA0, 0x1680, 0x2028, 0x2029, 0x202F,
            0x205F, 0x3000, 0xFEFF} \<or> (0x2000 \<le> c \<and> c \<le> 0x200A))"

definition first_token :: "jsstring \<Rightarrow> jsstring" where
  "first_token s = takeWhile (\<lambda>c. \<not> is_whitespace c) s"

function replace_every :: "jsstring \<Rightarrow> jsstring \<Rightarrow> jsstring" where
  "replace_every token [] = []"
| "replace_every token (c # cs) =
     (if match_at placeholder (c # cs)
      then token @ replace_every token (drop (length placeholder) (c # cs))
      else c # replace_every token cs)"
  by pat_completeness auto
termination
  by (relation "measure (\<lambda>(token, s). length s)") (auto simp: placeholder_def js_def)

definition render_as_specified :: "jsstring \<Rightarrow> jsval \<Rightarrow> jsstring" where
  "render_as_specified template recipientName =
     (if truthy recipientName then replace_every (first_token (the recipientName)) template
      else template)"

section \<open>Observing a run\<close>

text \<open>
  A callback that returns from every call, or no callback at all; the event one guarded
  call of \<open>onProgress\<close> leaves; and the events of one round of the loop, for the
  recipient \<open>r\<close> at index \<open>i\<close>: the call of \<open>onProgress\<close>, the single send, and the wait
  when \<open>i < total - 1\<close>.
\<close>

definition returns_normally :: "callback option \<Rightarrow> bool" where
  "returns_normally onProgress =
     (case onProgress of None \<Rightarrow> True | Some f \<Rightarrow> \<forall>i t p l. f i t p l = Inr ())"

definition progress_event ::
  "callback option \<Rightarrow> nat \<Rightarrow> nat \<Rightarrow> phase \<Rightarrow> jsval \<Rightarrow> 'p event list" where
  "progress_event onProgress i t p l =
     (case onProgress of None \<Rightarrow> [] | Some f \<Rightarrow> [Progress i t p l])"

definition step_events ::
  "callback option \<Rightarrow> (recipient \<Rightarrow> jsval) \<Rightarrow> (recipient \<Rightarrow> 'p) \<Rightarrow> nat \<Rightarrow> nat
     \<Rightarrow> nat \<times> recipient \<Rightarrow> 'p event list" where
  "step_events onProgress address params ms tot =
     (\<lambda>(i, r).
        progress_event onProgress (i + 1) tot sending (js_or (recipient.name r) (address r))
        @ [Attempt (params r)]
        @ (if i < tot - 1 then [Delay ms] else []))"

text \<open>The waits, the single sends and the calls of \<open>onProgress\<close> among some events.\<close>

fun delays :: "'p event list \<Rightarrow> nat list" where
  "delays [] = []"
| "delays (Delay ms # evs) = ms # delays evs"
| "delays (e # evs) = delays evs"

fun attempts :: "'p event list \<Rightarrow> 'p list" where
  "attempts [] = []"
| "attempts (Attempt p # evs) = p # attempts evs"
| "attempts (e # evs) = attempts evs"

fun progress_calls :: "'p event list \<Rightarrow> (nat \<times> nat \<times> phase \<times> jsval) list" where
  "progress_calls [] = []"
| "progress_calls (Progress i t p l # evs) = (i, t, p, l) # progress_calls evs"
| "progress_calls (e # evs) = progress_calls evs"

fun is_delay :: "'p event \<Rightarrow> bool" where
  "is_delay (Delay ms) = True"
| "is_delay e = False"

fun is_progress :: "'p event \<Rightarrow> bool" where
  "is_progress (Progress i t p l) = True"
| "is_progress e = False"

text \<open>
  A single send whose thrown errors have been turned into the failure results that carry
  the same message.
\<close>

definition normalized ::
  "('p \<Rightarrow> 's \<Rightarrow> send_result completion \<times> 's)
     \<Rightarrow> 'p \<Rightarrow> 's \<Rightarrow> send_result completion \<times> 's" where
  "normalized send params st =
     (case send params st of
        (Inl (Error m), st1) \<Rightarrow> (Inr (failure (Some m) None), st1)
      | (Inr result, st1) \<Rightarrow> (Inr result, st1))"

text \<open>
  Whether \<open>sendBulkEmails\<close> gets past \<open>initEmailJS\<close>, and the state of the email service
  at that point.
\<close>

definition email_prepared :: "email_host \<Rightarrow> email_state \<Rightarrow> bool \<times> email_state" where
  "email_prepared h st =
     initEmailJS (if cachedConfig st = None then snd (getEmailJSConfig h st) else st)"

section \<open>Example inputs\<close>

text \<open>
  A host whose credentials come from the environment, one without any credentials, one
  whose administrator has stored a complete configuration, and one whose stored
  configuration lacks the token.
\<close>

definition demo_twilio :: "twilio_request list \<Rightarrow> twilio_request \<Rightarrow> fetch_outcome" where
  "demo_twilio earlier request =
     Response 201
       (Inr \<lparr>twilio_data.message = None, twilio_data.code = None,
              twilio_data.sid = Some (js ''SM1''),
              twilio_data.status = Some (js ''queued'')\<rparr>)"

definition demo_env :: process_env where
  "demo_env =
     \<lparr>REACT_APP_TWILIO_ACCOUNT_SID = Some (js ''AC123''),
      REACT_APP_TWILIO_AUTH_TOKEN = Some (js ''secret''),
      REACT_APP_TWILIO_WHATSAPP_FROM = Some (js ''+14155238886'')\<rparr>"

definition demo_host :: host where
  "demo_host =
     \<lparr>env = demo_env,
      getItem = (\<lambda>key. Inr None),
      JSON_parse = (\<lambda>s. Inl (Error (js ''Unexpected token''))),
      btoa = (\<lambda>s. Inr (js ''QUMxMjM6c2VjcmV0'')),
      fetch = demo_twilio\<rparr>"

definition bare_host :: host where
  "bare_host =
     demo_host\<lparr>env := \<lparr>REACT_APP_TWILIO_ACCOUNT_SID = None,
                          REACT_APP_TWILIO_AUTH_TOKEN = None,
                          REACT_APP_TWILIO_WHATSAPP_FROM = None\<rparr>\<rparr>"

definition admin_config :: config where
  "admin_config =
     \<lparr>accountSid = Some (js ''AC999''), authToken = Some (js ''token''),
      fromNumber = Some (js ''+41791112233''), apiMode = Some (js ''twilio'')\<rparr>"

definition admin_host :: host where
  "admin_host =
     bare_host\<lparr>getItem := (\<lambda>key. if key = WHATSAPP_CONFIG_KEY
                                 then Inr (Some (js ''{...}'')) else Inr None),
                JSON_parse := (\<lambda>s. Inr (JValue admin_config))\<rparr>"

definition half_host :: host where
  "half_host =
     admin_host\<lparr>JSON_parse :=
                   (\<lambda>s. Inr (JValue (admin_config\<lparr>authToken := Some []\<rparr>)))\<rparr>"

text \<open>
  Two recipients, the second with a number too short to be sent to; a campaign; the
  state before a run; a callback that returns and one that throws.
\<close>

definition maria :: recipient where
  "maria =
     \<lparr>recipient.phone = Some (js ''079 123 45 67''),
      recipient.email = Some (js ''maria@example.org''),
      recipient.name = Some (js ''Maria Lopez'')\<rparr>"

definition paul :: recipient where
  "paul =
     \<lparr>recipient.phone = Some (js ''12345''),
      recipient.email = Some (js ''paul@example.org''), recipient.name = None\<rparr>"

definition demo_campaign :: campaign where
  "demo_campaign =
     \<lparr>campaign.message = js ''Hello {pr'' @ [0xE9] @ js ''nom}!'',
      campaign.mediaUrl = None, campaign.name = Some (js ''News'')\<rparr>"

definition idle :: wa_world where
  "idle = \<lparr>events = [], service = []\<rparr>"

definition quiet :: callback where
  "quiet i t p l = Inr ()"

definition throwing :: callback where
  "throwing i t p l = Inl (Error (js ''boom''))"

text \<open>A single send that throws for every recipient.\<close>

definition refusing :: wa_send where
  "refusing params network = (Inl (Error (js ''refused'')), network)"

text \<open>
  An email host whose backend holds a complete EmailJS configuration, one whose backend
  has none, and the state of the email module before its first run.
\<close>

definition demo_email_host :: email_host where
  "demo_email_host =
     \<lparr>API = js ''https://backend.example'',
      fetch_config =
        (\<lambda>earlier. ConfigResponse 200
           (Inr (Some \<lparr>serviceId = Some (js ''service_1''),
                        templateId = Some (js ''template_1''),
                        publicKey = Some (js ''pk_1'')\<rparr>))),
      emailjs_send = (\<lambda>earlier call. Resolves)\<rparr>"

definition bare_email_host :: email_host where
  "bare_email_host =
     demo_email_host\<lparr>fetch_config :=
                        (\<lambda>earlier. ConfigResponse 404 (Inl (Error (js ''Not Found''))))\<rparr>"

definition email_idle :: email_world where
  "email_idle = \<lparr>events = [], service = \<lparr>cachedConfig = None, calls = []\<rparr>\<rparr>"

section \<open>formatPhoneE164: examples and idempotence\<close>

lemma js_literals:
  "js ''+'' = [0x2B]" "js ''0'' = [0x30]" "js ''+41'' = [0x2B, 0x34, 0x31]"
  by (simp_all add: js_def)

lemma digit_or_plus_literals:
  "digit_or_plus 0x2B" "digit_or_plus 0x34" "digit_or_plus 0x31"
  by (simp_all add: digit_or_plus_def is_digit_def)

lemma startsWith_single: "startsWith s [c] = (s \<noteq> [] \<and> hd s = c)"
  by (cases s) (simp_all add: startsWith_def)

lemma formatPhoneE164_falsy: "\<not> truthy p \<Longrightarrow> formatPhoneE164 p = []"
  by (simp add: formatPhoneE164_def)

lemma formatPhoneE164_shape:
  assumes "truthy p"
  shows "\<exists>rest. formatPhoneE164 p = 0x2B # rest \<and> list_all digit_or_plus rest"
proof -
  define cleaned where "cleaned = filter digit_or_plus (the p)"
  have all: "list_all digit_or_plus cleaned"
    by (simp add: cleaned_def list_all_iff)
  show ?thesis
  proof (cases cleaned)
    case Nil
    then show ?thesis
      using assms
      by (simp add: formatPhoneE164_def cleaned_def [symmetric] startsWith_single
          js_literals digit_or_plus_literals)
  next
    case (Cons c cs)
    with all have "list_all digit_or_plus cs" and "digit_or_plus c" by simp_all
    then show ?thesis
      using assms Cons
      by (simp add: formatPhoneE164_def cleaned_def [symmetric] startsWith_single
          js_literals digit_or_plus_literals Let_def)
  qed
qed

lemma formatPhoneE164_fixed:
  assumes "list_all digit_or_plus rest"
  shows "formatPhoneE164 (Some (0x2B # rest)) = 0x2B # rest"
proof -
  have "filter digit_or_plus rest = rest"
    using assms by (simp add: list_all_iff)
  then show ?thesis
    by (simp add: formatPhoneE164_def truthy_def startsWith_single js_literals
        digit_or_plus_literals)
qed

text \<open>
  C3, as the code has it. The first two examples hold as stated. The third input,
  \<open>4155551234\<close>, is ten code units long once cleaned, which is not more than ten, so
  it takes the last branch and gets the default code \<open>+41\<close> in front: the result is
  \<open>+414155551234\<close>, not \<open>+4155551234\<close>. The input \<open>14155551234\<close>, eleven code units
  long, is one that gets the bare \<open>+\<close>.
\<close>

theorem formatPhoneE164_examples:
  "formatPhoneE164 (Some (js ''0791234567'')) = js ''+41791234567''
   \<and> formatPhoneE164 (Some (js ''+14155551234'')) = js ''+14155551234''
   \<and> formatPhoneE164 (Some (js ''4155551234'')) = js ''+414155551234''
   \<and> formatPhoneE164 (Some (js ''14155551234'')) = js ''+14155551234''"
  by code_simp

text \<open>
  C3 as stated fails on its third example: \<open>formatPhoneE164\<close> does not turn
  \<open>4155551234\<close> into \<open>+4155551234\<close>.
\<close>

theorem formatPhoneE164_third_example_counterexample:
  "formatPhoneE164 (Some (js ''4155551234'')) \<noteq> js ''+4155551234''"
  by code_simp

text \<open>
  C10: \<open>formatPhoneE164\<close> is idempotent. On a missing or empty input it returns the
  empty string; on any other input the result starts with \<open>+\<close> and holds only \<open>+\<close> and
  ASCII digits, so formatting it again changes nothing.
\<close>

theorem formatPhoneE164_idempotent:
  "formatPhoneE164 (Some (formatPhoneE164 p)) = formatPhoneE164 p
   \<and> (if truthy p
      then formatPhoneE164 p \<noteq> [] \<and> hd (formatPhoneE164 p) = 0x2B
           \<and> list_all digit_or_plus (formatPhoneE164 p)
      else formatPhoneE164 p = [])"
proof (cases "truthy p")
  case True
  then obtain rest where "formatPhoneE164 p = 0x2B # rest" "list_all digit_or_plus rest"
    using formatPhoneE164_shape by blast
  then show ?thesis
    using True by (simp add: formatPhoneE164_fixed digit_or_plus_literals)
next
  case False
  then show ?thesis
    by (simp add: formatPhoneE164_falsy truthy_def)
qed

theorem formatPhoneE164_idempotent_witness:
  "formatPhoneE164 (Some (formatPhoneE164 (Some (js ''079 123 45 67''))))
     = formatPhoneE164 (Some (js ''079 123 45 67''))
   \<and> formatPhoneE164 (Some (js ''079 123 45 67'')) = js ''+41791234567''"
proof -
  have "formatPhoneE164 (Some (js ''079 123 45 67'')) = js ''+41791234567''"
    by code_simp
  then show ?thesis
    using formatPhoneE164_idempotent [of "Some (js ''079 123 45 67'')"] by simp
qed

section \<open>Personalisation\<close>

lemma split_space_not_Nil: "split_space s \<noteq> []"
  by (induction s) (auto split: list.splits)

lemma hd_split_space: "hd (split_space s) = takeWhile (\<lambda>c. c \<noteq> 0x20) s"
  by (induction s) (auto simp: split_space_not_Nil split: list.splits)

lemma GetSubstitution_plain:
  "0x24 \<notin> set replacement \<Longrightarrow>
   GetSubstitution matched str position replacement = replacement"
  by (induction matched str position replacement rule: GetSubstitution.induct) auto

lemma replace_every_unfold:
  "s \<noteq> [] \<Longrightarrow>
   replace_every token s =
     (if match_at placeholder s then token @ replace_every token (drop (length placeholder) s)
      else hd s # replace_every token (tl s))"
  by (cases s) simp_all

lemma replace_prenom_from_plain:
  "0x24 \<notin> set replacement \<Longrightarrow>
   replace_prenom_from str replacement position = replace_every replacement (drop position str)"
proof (induction str replacement position rule: replace_prenom_from.induct)
  case (1 str replacement position)
  note plain = \<open>0x24 \<notin> set replacement\<close>
  show ?case
  proof (cases "length str \<le> position")
    case True
    then show ?thesis by (subst replace_prenom_from.simps) simp
  next
    case False
    then have nonempty: "drop position str \<noteq> []"
      by simp
    have h: "hd (drop position str) = str ! position"
      using False by (simp add: hd_drop_conv_nth)
    have t: "tl (drop position str) = drop (position + 1) str"
      by (simp add: drop_Suc tl_drop)
    have dd: "drop (length placeholder) (drop position str)
                = drop (position + length placeholder) str"
      by (simp add: add.commute)
    show ?thesis
    proof (cases "match_at placeholder (drop position str)")
      case True
      have "replace_prenom_from str replacement position =
            replacement @ replace_prenom_from str replacement (position + length placeholder)"
        using False True plain
        by (subst replace_prenom_from.simps) (simp add: GetSubstitution_plain)
      also have "\<dots> =
            replacement @ replace_every replacement (drop (position + length placeholder) str)"
        using "1.IH"(1) [OF False True plain] by simp
      also have "\<dots> = replace_every replacement (drop position str)"
        using True by (simp only: replace_every_unfold [OF nonempty] dd if_True)
      finally show ?thesis .
    next
      case nomatch: False
      have "replace_prenom_from str replacement position =
            str ! position # replace_prenom_from str replacement (position + 1)"
        using False nomatch by (subst replace_prenom_from.simps) simp
      also have "\<dots> = str ! position # replace_every replacement (drop (position + 1) str)"
        using "1.IH"(2) [OF False nomatch plain] by simp
      also have "\<dots> = replace_every replacement (drop position str)"
        using nomatch by (simp only: replace_every_unfold [OF nonempty] h t if_False)
      finally show ?thesis .
    qed
  qed
qed

lemma personalize_plain:
  assumes "truthy nm"
    and "0x24 \<notin> set (takeWhile (\<lambda>c. c \<noteq> 0x20) (the nm))"
  shows "personalize template nm =
         replace_every (takeWhile (\<lambda>c. c \<noteq> 0x20) (the nm)) template"
  using assms
  by (simp add: personalize_def replace_prenom_def hd_split_space replace_prenom_from_plain)

lemma is_whitespace_space: "is_whitespace 0x20"
  by (simp add: is_whitespace_def)

lemma first_token_space:
  "list_all (\<lambda>c. \<not> is_whitespace c) (takeWhile (\<lambda>c. c \<noteq> 0x20) s) \<Longrightarrow>
   first_token s = takeWhile (\<lambda>c. c \<noteq> 0x20) s"
proof (induction s)
  case Nil
  then show ?case by (simp add: first_token_def)
next
  case (Cons c cs)
  show ?case
  proof (cases "c = 0x20")
    case True
    then show ?thesis
      by (simp add: first_token_def is_whitespace_space)
  next
    case False
    with Cons.prems have "\<not> is_whitespace c"
      and "list_all (\<lambda>c. \<not> is_whitespace c) (takeWhile (\<lambda>c. c \<noteq> 0x20) cs)"
      by simp_all
    with Cons.IH False show ?thesis
      by (simp add: first_token_def)
  qed
qed

text \<open>
  C4, as the code has it. The name is split at the code unit U+0020 only, so the token
  put in is what stands before the first space of the name; and the token is a
  replacement text, so the theorem speaks of tokens without \<open>$\<close>. For such a name
  every occurrence of the placeholder, in any mix of cases, is replaced by that token;
  this is the rendering of the specification whenever no other white space stands
  before the first space of the name. Without a name (missing or empty) the template is
  returned as it is. The two examples of the claim hold.
\<close>

theorem personalize_replaces_every_placeholder:
  "(truthy nm \<and> 0x24 \<notin> set (takeWhile (\<lambda>c. c \<noteq> 0x20) (the nm))
      \<longrightarrow> personalize template nm
            = replace_every (takeWhile (\<lambda>c. c \<noteq> 0x20) (the nm)) template)
   \<and> (truthy nm \<and> 0x24 \<notin> set (takeWhile (\<lambda>c. c \<noteq> 0x20) (the nm))
        \<and> list_all (\<lambda>c. \<not> is_whitespace c) (takeWhile (\<lambda>c. c \<noteq> 0x20) (the nm))
      \<longrightarrow> personalize template nm = render_as_specified template nm)
   \<and> (\<not> truthy nm \<longrightarrow> personalize template nm = template
                        \<and> render_as_specified template nm = template)
   \<and> personalize (js ''Hello {pr'' @ [0xE9] @ js ''nom}!'') (Some (js ''Maria Lopez''))
       = js ''Hello Maria!''
   \<and> personalize (js ''Hello {pr'' @ [0xE9] @ js ''nom}!'') None
       = js ''Hello {pr'' @ [0xE9] @ js ''nom}!''"
proof -
  have "personalize (js ''Hello {pr'' @ [0xE9] @ js ''nom}!'') (Some (js ''Maria Lopez''))
          = js ''Hello Maria!''"
    by code_simp
  moreover have "\<not> truthy nm \<longrightarrow> personalize template nm = template
                                \<and> render_as_specified template nm = template"
    by (simp add: personalize_def render_as_specified_def)
  moreover have "personalize (js ''Hello {pr'' @ [0xE9] @ js ''nom}!'') None
          = js ''Hello {pr'' @ [0xE9] @ js ''nom}!''"
    by (simp add: personalize_def truthy_def)
  moreover have "truthy nm \<and> 0x24 \<notin> set (takeWhile (\<lambda>c. c \<noteq> 0x20) (the nm))
        \<and> list_all (\<lambda>c. \<not> is_whitespace c) (takeWhile (\<lambda>c. c \<noteq> 0x20) (the nm))
      \<longrightarrow> personalize template nm = render_as_specified template nm"
    by (simp add: personalize_plain render_as_specified_def first_token_space)
  ultimately show ?thesis
    using personalize_plain by blast
qed

theorem personalize_replaces_every_placeholder_witness:
  "truthy (Some (js ''Maria Lopez''))
   \<and> 0x24 \<notin> set (takeWhile (\<lambda>c. c \<noteq> 0x20) (js ''Maria Lopez''))
   \<and> list_all (\<lambda>c. \<not> is_whitespace c) (takeWhile (\<lambda>c. c \<noteq> 0x20) (js ''Maria Lopez''))
   \<and> personalize (js ''{Pr'' @ [0xE9] @ js ''nom}, {PR'' @ [0xC9] @ js ''NOM}!'')
        (Some (js ''Maria Lopez''))
       = js ''Maria, Maria!''
   \<and> render_as_specified (js ''{Pr'' @ [0xE9] @ js ''nom}, {PR'' @ [0xC9] @ js ''NOM}!'')
        (Some (js ''Maria Lopez''))
       = js ''Maria, Maria!''"
proof -
  have e: "list_all (\<lambda>c. \<not> is_whitespace c) (js ''Maria'')"
    by code_simp
  have a: "truthy (Some (js ''Maria Lopez''))"
    by code_simp
  have b: "takeWhile (\<lambda>c. c \<noteq> 0x20) (js ''Maria Lopez'') = js ''Maria''"
    by code_simp
  have c: "0x24 \<notin> set (js ''Maria'')"
    by (simp add: js_def)
  have d: "replace_every (js ''Maria'')
             (js ''{Pr'' @ [0xE9] @ js ''nom}, {PR'' @ [0xC9] @ js ''NOM}!'')
           = js ''Maria, Maria!''"
    by code_simp
  show ?thesis
    using personalize_replaces_every_placeholder
      [of "Some (js ''Maria Lopez'')"
          "js ''{Pr'' @ [0xE9] @ js ''nom}, {PR'' @ [0xC9] @ js ''NOM}!''"]
      a b c d e
    by auto
qed

text \<open>
  C4 as stated fails in two ways. A name whose first white space is a tab is not split
  there: the whole name is put in, where the specification's renderer puts in
  \<open>Maria\<close>. And a name that reads \<open>$&\<close> is taken as a replacement pattern: the
  placeholder is replaced by itself, where the specification's renderer puts in the
  name.
\<close>

theorem personalize_first_token_counterexample:
  "personalize (js ''Hello {pr'' @ [0xE9] @ js ''nom}!'')
       (Some (js ''Maria'' @ [0x09] @ js ''Lopez''))
     = js ''Hello Maria'' @ [0x09] @ js ''Lopez!''
   \<and> render_as_specified (js ''Hello {pr'' @ [0xE9] @ js ''nom}!'')
       (Some (js ''Maria'' @ [0x09] @ js ''Lopez''))
     = js ''Hello Maria!''
   \<and> personalize (js ''Hello {pr'' @ [0xE9] @ js ''nom}!'') (Some (js ''$&''))
     = js ''Hello {pr'' @ [0xE9] @ js ''nom}!''
   \<and> render_as_specified (js ''Hello {pr'' @ [0xE9] @ js ''nom}!'') (Some (js ''$&''))
     = js ''Hello $&!''
   \<and> personalize (js ''Hello {pr'' @ [0xE9] @ js ''nom}!'')
       (Some (js ''Maria'' @ [0x09] @ js ''Lopez''))
     \<noteq> render_as_specified (js ''Hello {pr'' @ [0xE9] @ js ''nom}!'')
         (Some (js ''Maria'' @ [0x09] @ js ''Lopez''))
   \<and> personalize (js ''Hello {pr'' @ [0xE9] @ js ''nom}!'') (Some (js ''$&''))
     \<noteq> render_as_specified (js ''Hello {pr'' @ [0xE9] @ js ''nom}!'') (Some (js ''$&''))"
  by code_simp

section \<open>The configuration and the single send\<close>

lemma truthy_Some: "truthy (Some s) = (s \<noteq> [])"
  by (simp add: truthy_def)

lemma truthy_the: "truthy v \<Longrightarrow> v = Some (the v) \<and> the v \<noteq> []"
  by (cases v) (simp_all add: truthy_def)

lemma getWhatsAppConfig_returns: "\<exists>config. getWhatsAppConfig h = Inr config"
  by (simp add: getWhatsAppConfig_def split: sum.splits option.splits)

lemma isWhatsAppConfigured_returns: "\<exists>b. isWhatsAppConfigured h = Inr b"
  by (simp add: isWhatsAppConfigured_def getWhatsAppConfig_def split: sum.splits option.splits)

text \<open>
  C9: \<open>getWhatsAppConfig\<close> never throws, and what it returns is the default
  configuration or the stored one with its three credentials non-empty. It is the default
  whenever reading the storage throws, nothing (or the empty string) is stored, the stored
  text does not parse, it parses to \<open>null\<close>, or one of the three credentials of the
  stored configuration is missing or empty.
\<close>

theorem getWhatsAppConfig_default_or_complete:
  "(\<exists>config. getWhatsAppConfig h = Inr config
      \<and> (config = DEFAULT_CONFIG (env h)
          \<or> (\<exists>s. s \<noteq> [] \<and> getItem h WHATSAPP_CONFIG_KEY = Inr (Some s)
                  \<and> JSON_parse h s = Inr (JValue config)
                  \<and> truthy (accountSid config) \<and> truthy (authToken config)
                  \<and> truthy (fromNumber config))))
   \<and> ((\<exists>e. getItem h WHATSAPP_CONFIG_KEY = Inl e)
        \<longrightarrow> getWhatsAppConfig h = Inr (DEFAULT_CONFIG (env h)))
   \<and> ((\<exists>v. getItem h WHATSAPP_CONFIG_KEY = Inr v \<and> \<not> truthy v)
        \<longrightarrow> getWhatsAppConfig h = Inr (DEFAULT_CONFIG (env h)))
   \<and> ((\<exists>s e. getItem h WHATSAPP_CONFIG_KEY = Inr (Some s) \<and> JSON_parse h s = Inl e)
        \<longrightarrow> getWhatsAppConfig h = Inr (DEFAULT_CONFIG (env h)))
   \<and> ((\<exists>s. getItem h WHATSAPP_CONFIG_KEY = Inr (Some s) \<and> JSON_parse h s = Inr JNull)
        \<longrightarrow> getWhatsAppConfig h = Inr (DEFAULT_CONFIG (env h)))
   \<and> ((\<exists>s stored. getItem h WHATSAPP_CONFIG_KEY = Inr (Some s)
                \<and> JSON_parse h s = Inr (JValue stored)
                \<and> (\<not> truthy (accountSid stored) \<or> \<not> truthy (authToken stored)
                    \<or> \<not> truthy (fromNumber stored)))
        \<longrightarrow> getWhatsAppConfig h = Inr (DEFAULT_CONFIG (env h)))"
  by (auto simp: getWhatsAppConfig_def getWhatsAppConfig_try_def truthy_Some
      split: sum.splits option.splits json.splits if_splits dest: truthy_the)

theorem getWhatsAppConfig_default_or_complete_witness:
  "getItem half_host WHATSAPP_CONFIG_KEY = Inr (Some (js ''{...}''))
   \<and> JSON_parse half_host (js ''{...}'') = Inr (JValue (admin_config\<lparr>authToken := Some []\<rparr>))
   \<and> \<not> truthy (authToken (admin_config\<lparr>authToken := Some []\<rparr>))
   \<and> getWhatsAppConfig half_host = Inr (DEFAULT_CONFIG (env half_host))
   \<and> getWhatsAppConfig admin_host = Inr admin_config
   \<and> admin_config \<noteq> DEFAULT_CONFIG (env admin_host)"
proof -
  have a: "getItem half_host WHATSAPP_CONFIG_KEY = Inr (Some (js ''{...}''))"
    by (simp add: half_host_def admin_host_def)
  have b: "JSON_parse half_host (js ''{...}'')
             = Inr (JValue (admin_config\<lparr>authToken := Some []\<rparr>))"
    by (simp add: half_host_def)
  have c: "\<not> truthy (authToken (admin_config\<lparr>authToken := Some []\<rparr>))"
    by (simp add: truthy_def)
  have d: "getWhatsAppConfig half_host = Inr (DEFAULT_CONFIG (env half_host))"
    using getWhatsAppConfig_default_or_complete [of half_host] a b c by blast
  have e: "getWhatsAppConfig admin_host = Inr admin_config"
    by (simp add: getWhatsAppConfig_def getWhatsAppConfig_try_def admin_host_def
        admin_config_def truthy_def js_def)
  have f: "admin_config \<noteq> DEFAULT_CONFIG (env admin_host)"
    by (simp add: admin_config_def DEFAULT_CONFIG_def admin_host_def bare_host_def
        js_or_def truthy_def js_def)
  from a b c d e f show ?thesis by blast
qed

text \<open>
  C5: with a complete configuration, a destination whose normalised form has fewer than
  ten code units makes \<open>sendWhatsAppMessage\<close> resolve to a failure whose \<open>error\<close> is the
  invalid-number message, and the list of requests sent to the network is unchanged.
\<close>

theorem sendWhatsAppMessage_short_address:
  assumes "isWhatsAppConfigured h = Inr True"
    and "length (formatPhoneE164 (to params)) < 10"
  shows "sendWhatsAppMessage h params network =
         (Inr \<lparr>success = False, sid = None, status = None,
                error = Some invalid_number_message, code = None\<rparr>, network)"
proof -
  obtain config where c: "getWhatsAppConfig h = Inr config"
    using getWhatsAppConfig_returns by blast
  with assms(1) have "truthy (accountSid config)" "truthy (authToken config)"
    "truthy (fromNumber config)"
    by (simp_all add: isWhatsAppConfigured_def)
  with c assms(2) show ?thesis
    by (simp add: sendWhatsAppMessage_def failure_def)
qed

theorem sendWhatsAppMessage_short_address_witness:
  "isWhatsAppConfigured demo_host = Inr True
   \<and> formatPhoneE164 (Some (js ''12345'')) = js ''+4112345''
   \<and> sendWhatsAppMessage demo_host
        \<lparr>to = Some (js ''12345''), message = js ''Hello'', mediaUrl = None,
          contactName = Some (js ''Maria Lopez'')\<rparr> []
      = (Inr \<lparr>success = False, sid = None, status = None,
               error = Some invalid_number_message, code = None\<rparr>, [])"
proof -
  have a: "isWhatsAppConfigured demo_host = Inr True"
    by (simp add: isWhatsAppConfigured_def getWhatsAppConfig_def getWhatsAppConfig_try_def
        demo_host_def demo_env_def DEFAULT_CONFIG_def js_or_def truthy_def js_def)
  have b: "formatPhoneE164 (Some (js ''12345'')) = js ''+4112345''"
    by code_simp
  have c: "length (formatPhoneE164 (to \<lparr>to = Some (js ''12345''), message = js ''Hello'',
             mediaUrl = None, contactName = Some (js ''Maria Lopez'')\<rparr>)) < 10"
    by (simp add: b) (simp add: js_def)
  from a b sendWhatsAppMessage_short_address [OF a c] show ?thesis by simp
qed

section \<open>Runs of the bulk operations\<close>

lemma notify_returns:
  "returns_normally onProgress \<Longrightarrow>
   notify onProgress i t p l w =
     (Inr (), \<lparr>events = events w @ progress_event onProgress i t p l, service = service w\<rparr>)"
  by (cases onProgress; cases w)
     (simp_all add: notify_def returns_normally_def progress_event_def)

lemma delays_append: "delays (xs @ ys) = delays xs @ delays ys"
  by (induction xs rule: delays.induct) simp_all

lemma attempts_append: "attempts (xs @ ys) = attempts xs @ attempts ys"
  by (induction xs rule: attempts.induct) simp_all

lemma progress_calls_append: "progress_calls (xs @ ys) = progress_calls xs @ progress_calls ys"
  by (induction xs rule: progress_calls.induct) simp_all

lemma progress_event_projections:
  "delays (progress_event onProgress i t p l) = []"
  "attempts (progress_event onProgress i t p l) = []"
  "filter is_progress (progress_event onProgress i t p l :: 'p event list) = progress_event onProgress i t p l"
  "filter (\<lambda>e. \<not> is_progress e) (progress_event onProgress i t p l :: 'p event list) = []"
  "filter (\<lambda>e. \<not> is_delay e) (progress_event onProgress i t p l :: 'p event list) = progress_event onProgress i t p l"
  by (simp_all add: progress_event_def split: option.splits)

lemma progress_event_Some:
  "progress_event (Some f) i t p l = [Progress i t p l]"
  by (simp add: progress_event_def)

lemma delays_steps:
  "i + length rs = tot \<Longrightarrow>
   delays (concat (map (step_events onProgress address params ms tot) (enumerate i rs)))
     = replicate (length rs - 1) ms"
proof (induction rs arbitrary: i)
  case Nil
  then show ?case by simp
next
  case (Cons r rest)
  then have "delays (concat (map (step_events onProgress address params ms tot)
                               (enumerate (Suc i) rest)))
               = replicate (length rest - 1) ms"
    by simp
  then show ?case
    using Cons.prems
    by (cases rest) (auto simp: step_events_def delays_append progress_event_projections)
qed

lemma attempts_steps:
  "attempts (concat (map (step_events onProgress address params ms tot) (enumerate i rs)))
     = map params rs"
  by (induction rs arbitrary: i)
     (simp_all add: step_events_def attempts_append progress_event_projections)

lemma progress_calls_steps:
  "progress_calls (concat (map (step_events (Some f) address params ms tot) (enumerate i rs)))
     = map (\<lambda>(i, r). (i + 1, tot, sending, js_or (recipient.name r) (address r)))
         (enumerate i rs)"
  by (induction rs arbitrary: i)
     (simp_all add: step_events_def progress_calls_append progress_event_Some)

lemma without_delays_steps:
  "filter (\<lambda>e. \<not> is_delay e)
     (concat (map (step_events (Some f) address params ms tot) (enumerate i rs)))
     = concat (map (\<lambda>(i, r). [Progress (i + 1) tot sending
                                  (js_or (recipient.name r) (address r)),
                                Attempt (params r)])
                 (enumerate i rs))"
  by (induction rs arbitrary: i) (simp_all add: step_events_def progress_event_Some)

lemma without_progress_steps:
  "filter (\<lambda>e. \<not> is_progress e)
     (concat (map (step_events onProgress address params ms tot) (enumerate i rs)))
     = concat (map (\<lambda>(i, r). Attempt (params r) # (if i < tot - 1 then [Delay ms] else []))
                 (enumerate i rs))"
  by (induction rs arbitrary: i)
     (simp_all add: step_events_def progress_event_projections)

subsection \<open>sendBulkWhatsApp\<close>

lemma wa_record_counts:
  "sent (wa_record r outcome results) + failed (wa_record r outcome results)
     = sent results + failed results + 1"
  by (simp add: wa_record_def split: sum.splits js_error.splits)

lemma wa_record_details:
  "map (\<lambda>d. (wa_detail.phone d, wa_detail.name d)) (details (wa_record r outcome results))
     = map (\<lambda>d. (wa_detail.phone d, wa_detail.name d)) (details results)
       @ [(recipient.phone r, recipient.name r)]"
  by (simp add: wa_record_def split: sum.splits js_error.splits)

lemma wa_loop_step:
  assumes "returns_normally onProgress"
    and "send (wa_params_of r c) (service w) = (outcome, network)"
  shows "sendBulkWhatsApp_loop send c onProgress tot i (r # rest) results w =
         sendBulkWhatsApp_loop send c onProgress tot (i + 1) rest (wa_record r outcome results)
           \<lparr>events = events w
                @ step_events onProgress recipient.phone (\<lambda>r. wa_params_of r c) 500 tot (i, r),
             service = network\<rparr>"
  using assms(2)
  by (simp add: notify_returns [OF assms(1)] Let_def sleep_def step_events_def)

lemma wa_loop_run:
  assumes "returns_normally onProgress"
  shows "\<exists>res w'. sendBulkWhatsApp_loop send c onProgress tot i rs results w = (Inr res, w')
           \<and> events w' = events w
                 @ concat (map (step_events onProgress recipient.phone (\<lambda>r. wa_params_of r c)
                                  500 tot) (enumerate i rs))
           \<and> sent res + failed res = sent results + failed results + length rs
           \<and> map (\<lambda>d. (wa_detail.phone d, wa_detail.name d)) (details res)
               = map (\<lambda>d. (wa_detail.phone d, wa_detail.name d)) (details results)
                 @ map (\<lambda>r. (recipient.phone r, recipient.name r)) rs"
proof (induction rs arbitrary: i results w)
  case Nil
  then show ?case by simp
next
  case (Cons r rest)
  obtain outcome network where s: "send (wa_params_of r c) (service w) = (outcome, network)"
    by (cases "send (wa_params_of r c) (service w)")
  define w3 :: wa_world where
    "w3 = \<lparr>events = events w
              @ step_events onProgress recipient.phone (\<lambda>r. wa_params_of r c) 500 tot (i, r),
            service = network\<rparr>"
  have step: "sendBulkWhatsApp_loop send c onProgress tot i (r # rest) results w =
        sendBulkWhatsApp_loop send c onProgress tot (i + 1) rest (wa_record r outcome results) w3"
    unfolding w3_def
    by (rule wa_loop_step [where send = send, OF assms s])
  obtain res w' where run:
    "sendBulkWhatsApp_loop send c onProgress tot (i + 1) rest (wa_record r outcome results) w3
       = (Inr res, w')"
    "events w' = events w3
       @ concat (map (step_events onProgress recipient.phone (\<lambda>r. wa_params_of r c) 500 tot)
                   (enumerate (i + 1) rest))"
    "sent res + failed res
       = sent (wa_record r outcome results) + failed (wa_record r outcome results) + length rest"
    "map (\<lambda>d. (wa_detail.phone d, wa_detail.name d)) (details res)
       = map (\<lambda>d. (wa_detail.phone d, wa_detail.name d)) (details (wa_record r outcome results))
         @ map (\<lambda>r. (recipient.phone r, recipient.name r)) rest"
    using Cons.IH [of "i + 1" "wa_record r outcome results" w3] by blast
  have "events w' = events w
          @ concat (map (step_events onProgress recipient.phone (\<lambda>r. wa_params_of r c) 500 tot)
                      (enumerate i (r # rest)))"
    using run(2) by (simp add: w3_def)
  moreover have "sent res + failed res = sent results + failed results + length (r # rest)"
    using run(3) by (simp add: wa_record_counts)
  moreover have "map (\<lambda>d. (wa_detail.phone d, wa_detail.name d)) (details res)
       = map (\<lambda>d. (wa_detail.phone d, wa_detail.name d)) (details results)
         @ map (\<lambda>r. (recipient.phone r, recipient.name r)) (r # rest)"
    using run(4) by (simp add: wa_record_details)
  ultimately show ?case
    using run(1) step by simp
qed


lemma wa_via_run:
  assumes "isWhatsAppConfigured h = Inr True" and "returns_normally onProgress"
  shows "\<exists>res w'. sendBulkWhatsApp_via send h recipients c onProgress w = (Inr res, w')
           \<and> events w' = events w
                 @ concat (map (step_events onProgress recipient.phone (\<lambda>r. wa_params_of r c)
                                  500 (length recipients)) (enumerate 0 recipients))
                 @ progress_event onProgress (length recipients) (length recipients)
                     completed None
           \<and> sent res + failed res = length recipients
           \<and> map (\<lambda>d. (wa_detail.phone d, wa_detail.name d)) (details res)
               = map (\<lambda>r. (recipient.phone r, recipient.name r)) recipients"
proof -
  obtain res w1 where run:
    "sendBulkWhatsApp_loop send c onProgress (length recipients) 0 recipients
       \<lparr>sent = 0, failed = 0, errors = [], details = []\<rparr> w = (Inr res, w1)"
    "events w1 = events w
       @ concat (map (step_events onProgress recipient.phone (\<lambda>r. wa_params_of r c)
                        500 (length recipients)) (enumerate 0 recipients))"
    "sent res + failed res = length recipients"
    "map (\<lambda>d. (wa_detail.phone d, wa_detail.name d)) (details res)
       = map (\<lambda>r. (recipient.phone r, recipient.name r)) recipients"
    using wa_loop_run [OF assms(2), of send c "length recipients" 0 recipients
        "\<lparr>sent = 0, failed = 0, errors = [], details = []\<rparr>" w]
    by auto
  show ?thesis
    using run assms(1)
    by (simp add: sendBulkWhatsApp_via_def notify_returns [OF assms(2)] Let_def)
qed

lemma wa_record_normalized:
  "wa_record r (fst (normalized send params st)) results
     = wa_record r (fst (send params st)) results"
  "snd (normalized send params st) = snd (send params st)"
  by (auto simp: normalized_def wa_record_def failure_def ToString_def
      split: prod.splits sum.splits js_error.splits)

lemma wa_loop_normalized:
  "sendBulkWhatsApp_loop (normalized send) c onProgress tot i rs results w
     = sendBulkWhatsApp_loop send c onProgress tot i rs results w"
proof (induction rs arbitrary: i results w)
  case Nil
  then show ?case by simp
next
  case (Cons r rest)
  show ?case
    by (simp add: Let_def Cons.IH split_beta wa_record_normalized
        split: prod.splits sum.splits)
qed

subsection \<open>sendBulkEmails\<close>

lemma email_record_counts:
  "sent (email_record r outcome results) + failed (email_record r outcome results)
     = sent results + failed results + 1"
  by (simp add: email_record_def split: sum.splits js_error.splits)

lemma email_record_details:
  "map (\<lambda>d. (email_detail.email d, email_detail.name d)) (details (email_record r outcome results))
     = map (\<lambda>d. (email_detail.email d, email_detail.name d)) (details results)
       @ [(recipient.email r, recipient.name r)]"
  by (simp add: email_record_def split: sum.splits js_error.splits)

lemma email_loop_step:
  assumes "returns_normally onProgress"
    and "send (email_params_of r c) (service w) = (outcome, st1)"
  shows "sendBulkEmails_loop send c onProgress tot i (r # rest) results w =
         sendBulkEmails_loop send c onProgress tot (i + 1) rest (email_record r outcome results)
           \<lparr>events = events w
                @ step_events onProgress recipient.email (\<lambda>r. email_params_of r c) 200 tot (i, r),
             service = st1\<rparr>"
  using assms(2)
  by (simp add: notify_returns [OF assms(1)] Let_def sleep_def step_events_def)

lemma email_loop_run:
  assumes "returns_normally onProgress"
  shows "\<exists>res w'. sendBulkEmails_loop send c onProgress tot i rs results w = (Inr res, w')
           \<and> events w' = events w
                 @ concat (map (step_events onProgress recipient.email (\<lambda>r. email_params_of r c)
                                  200 tot) (enumerate i rs))
           \<and> sent res + failed res = sent results + failed results + length rs
           \<and> map (\<lambda>d. (email_detail.email d, email_detail.name d)) (details res)
               = map (\<lambda>d. (email_detail.email d, email_detail.name d)) (details results)
                 @ map (\<lambda>r. (recipient.email r, recipient.name r)) rs"
proof (induction rs arbitrary: i results w)
  case Nil
  then show ?case by simp
next
  case (Cons r rest)
  obtain outcome st1 where s: "send (email_params_of r c) (service w) = (outcome, st1)"
    by (cases "send (email_params_of r c) (service w)")
  define w3 :: email_world where
    "w3 = \<lparr>events = events w
              @ step_events onProgress recipient.email (\<lambda>r. email_params_of r c) 200 tot (i, r),
            service = st1\<rparr>"
  have step: "sendBulkEmails_loop send c onProgress tot i (r # rest) results w =
        sendBulkEmails_loop send c onProgress tot (i + 1) rest (email_record r outcome results) w3"
    unfolding w3_def
    by (rule email_loop_step [where send = send, OF assms s])
  obtain res w' where run:
    "sendBulkEmails_loop send c onProgress tot (i + 1) rest (email_record r outcome results) w3
       = (Inr res, w')"
    "events w' = events w3
       @ concat (map (step_events onProgress recipient.email (\<lambda>r. email_params_of r c) 200 tot)
                   (enumerate (i + 1) rest))"
    "sent res + failed res
       = sent (email_record r outcome results) + failed (email_record r outcome results) + length rest"
    "map (\<lambda>d. (email_detail.email d, email_detail.name d)) (details res)
       = map (\<lambda>d. (email_detail.email d, email_detail.name d)) (details (email_record r outcome results))
         @ map (\<lambda>r. (recipient.email r, recipient.name r)) rest"
    using Cons.IH [of "i + 1" "email_record r outcome results" w3] by blast
  have "events w' = events w
          @ concat (map (step_events onProgress recipient.email (\<lambda>r. email_params_of r c) 200 tot)
                      (enumerate i (r # rest)))"
    using run(2) by (simp add: w3_def)
  moreover have "sent res + failed res = sent results + failed results + length (r # rest)"
    using run(3) by (simp add: email_record_counts)
  moreover have "map (\<lambda>d. (email_detail.email d, email_detail.name d)) (details res)
       = map (\<lambda>d. (email_detail.email d, email_detail.name d)) (details results)
         @ map (\<lambda>r. (recipient.email r, recipient.name r)) (r # rest)"
    using run(4) by (simp add: email_record_details)
  ultimately show ?case
    using run(1) step by simp
qed


lemma email_via_run:
  assumes "fst (email_prepared h (service w))" and "returns_normally onProgress"
  shows "\<exists>res w'. sendBulkEmails_via send h recipients c onProgress w = (Inr res, w')
           \<and> events w' = events w
                 @ concat (map (step_events onProgress recipient.email (\<lambda>r. email_params_of r c)
                                  200 (length recipients)) (enumerate 0 recipients))
                 @ progress_event onProgress (length recipients) (length recipients)
                     completed None
           \<and> sent res + failed res = length recipients
           \<and> map (\<lambda>d. (email_detail.email d, email_detail.name d)) (details res)
               = map (\<lambda>r. (recipient.email r, recipient.name r)) recipients"
proof -
  obtain st2 where prep: "email_prepared h (service w) = (True, st2)"
    using assms(1) by (cases "email_prepared h (service w)") simp
  define w0 :: email_world where "w0 = w\<lparr>service := st2\<rparr>"
  obtain res w1 where run:
    "sendBulkEmails_loop send c onProgress (length recipients) 0 recipients
       \<lparr>sent = 0, failed = 0, errors = [], details = []\<rparr> w0 = (Inr res, w1)"
    "events w1 = events w0
       @ concat (map (step_events onProgress recipient.email (\<lambda>r. email_params_of r c)
                        200 (length recipients)) (enumerate 0 recipients))"
    "sent res + failed res = length recipients"
    "map (\<lambda>d. (email_detail.email d, email_detail.name d)) (details res)
       = map (\<lambda>r. (recipient.email r, recipient.name r)) recipients"
    using email_loop_run [OF assms(2), of send c "length recipients" 0 recipients
        "\<lparr>sent = 0, failed = 0, errors = [], details = []\<rparr>" w0]
    by auto
  have "events w0 = events w"
    by (simp add: w0_def)
  with run show ?thesis
    using prep [unfolded email_prepared_def]
    by (simp add: sendBulkEmails_via_def notify_returns [OF assms(2)] Let_def
        w0_def [symmetric])
qed

lemma email_via_stopped:
  assumes "\<not> fst (email_prepared h (service w))"
  shows "sendBulkEmails_via send h recipients c onProgress w =
           (Inr \<lparr>sent = 0, failed = length recipients,
                  errors = [js ''EmailJS non configur'' @ [0xE9]], details = []\<rparr>,
            w\<lparr>service := snd (email_prepared h (service w))\<rparr>)"
proof -
  obtain st2 where prep: "email_prepared h (service w) = (False, st2)"
    using assms by (cases "email_prepared h (service w)") simp
  show ?thesis
    using prep prep [unfolded email_prepared_def]
    by (simp add: sendBulkEmails_via_def Let_def)
qed

lemma wa_via_stopped:
  assumes "isWhatsAppConfigured h = Inr False"
  shows "sendBulkWhatsApp_via send h recipients c onProgress w =
           (Inr \<lparr>sent = 0, failed = length recipients,
                  errors = [js ''WhatsApp API non configur'' @ [0xE9]], details = []\<rparr>, w)"
  using assms by (simp add: sendBulkWhatsApp_via_def)

section \<open>Claims about the bulk operations\<close>

text \<open>
  \<open>sendBulkWhatsApp h\<close> is \<open>sendBulkWhatsApp_via (sendWhatsAppMessage h) h\<close> and
  \<open>sendBulkEmails h\<close> is \<open>sendBulkEmails_via (sendEmail h) h\<close>. The theorems below
  are stated for every function in the place of the single send, whatever it returns,
  throws or does to its own state; they hold in particular of the two functions of the
  modules.
\<close>

lemma demo_host_configured: "isWhatsAppConfigured demo_host = Inr True"
  by (simp add: isWhatsAppConfigured_def getWhatsAppConfig_def getWhatsAppConfig_try_def
      demo_host_def demo_env_def DEFAULT_CONFIG_def js_or_def truthy_def js_def)

lemma bare_host_config: "getWhatsAppConfig bare_host = Inr (DEFAULT_CONFIG (env bare_host))"
  by (simp add: getWhatsAppConfig_def getWhatsAppConfig_try_def bare_host_def demo_host_def
      truthy_def)

lemma bare_host_not_configured: "isWhatsAppConfigured bare_host = Inr False"
  by (simp add: isWhatsAppConfigured_def bare_host_config)
     (simp add: DEFAULT_CONFIG_def bare_host_def js_or_def truthy_def)

lemma demo_email_host_prepared: "fst (email_prepared demo_email_host (service email_idle))"
  by (simp add: email_prepared_def email_idle_def getEmailJSConfig_def initEmailJS_def
      demo_email_host_def response_ok_def truthy_def js_def)

lemma returns_normally_examples: "returns_normally None" "returns_normally (Some quiet)"
  by (simp_all add: returns_normally_def quiet_def)

text \<open>
  C2: when the configuration in force lacks one of its three credentials,
  \<open>sendBulkWhatsApp\<close> returns at once: nothing sent, every recipient counted as failed, the
  one message about the missing configuration, and the world as it was, so no single
  send was called, no request went to the network and the callback was not called. This
  holds whatever function the loop would have called for one recipient, and so for
  \<open>sendWhatsAppMessage\<close>.
\<close>

theorem sendBulkWhatsApp_not_configured:
  assumes "getWhatsAppConfig h = Inr config"
    and "\<not> truthy (accountSid config) \<or> \<not> truthy (authToken config)
         \<or> \<not> truthy (fromNumber config)"
  shows "sendBulkWhatsApp_via send h recipients c onProgress w =
           (Inr \<lparr>sent = 0, failed = length recipients,
                  errors = [js ''WhatsApp API non configur'' @ [0xE9]], details = []\<rparr>, w)
         \<and> sendBulkWhatsApp h recipients c onProgress w =
           (Inr \<lparr>sent = 0, failed = length recipients,
                  errors = [js ''WhatsApp API non configur'' @ [0xE9]], details = []\<rparr>, w)"
proof -
  have "isWhatsAppConfigured h = Inr False"
    using assms by (auto simp: isWhatsAppConfigured_def)
  then show ?thesis
    by (simp add: sendBulkWhatsApp_def wa_via_stopped)
qed

theorem sendBulkWhatsApp_not_configured_witness:
  "getWhatsAppConfig bare_host = Inr (DEFAULT_CONFIG (env bare_host))
   \<and> \<not> truthy (accountSid (DEFAULT_CONFIG (env bare_host)))
   \<and> sendBulkWhatsApp bare_host [maria, paul] demo_campaign (Some quiet) idle =
       (Inr \<lparr>sent = 0, failed = 2,
              errors = [js ''WhatsApp API non configur'' @ [0xE9]], details = []\<rparr>, idle)"
proof -
  have a: "\<not> truthy (accountSid (DEFAULT_CONFIG (env bare_host)))"
    by (simp add: DEFAULT_CONFIG_def bare_host_def js_or_def truthy_def)
  then have "\<not> truthy (accountSid (DEFAULT_CONFIG (env bare_host)))
             \<or> \<not> truthy (authToken (DEFAULT_CONFIG (env bare_host)))
             \<or> \<not> truthy (fromNumber (DEFAULT_CONFIG (env bare_host)))"
    by simp
  from sendBulkWhatsApp_not_configured [OF bare_host_config this,
      of "sendWhatsAppMessage bare_host" "[maria, paul]" demo_campaign "Some quiet" idle]
    a bare_host_config
  show ?thesis by simp
qed

text \<open>
  C1, as the code has it, for a run whose callback returns (C7 is about one that throws).
  Both operations return a result whose \<open>sent\<close> and \<open>failed\<close> add up to the number of
  recipients. When the run gets past its configuration check, \<open>details\<close> has one entry
  for each recipient, in the order of the recipients, with that recipient's address and
  name. When the check stops the run, nothing was sent and \<open>details\<close> is empty.
\<close>

theorem bulk_results_cover_every_recipient:
  assumes "returns_normally onProgress"
  shows "(\<exists>res w'. sendBulkWhatsApp_via send h recipients c onProgress w = (Inr res, w')
            \<and> sent res + failed res = length recipients
            \<and> (if isWhatsAppConfigured h = Inr True
                then length (details res) = length recipients
                     \<and> map (\<lambda>d. (wa_detail.phone d, wa_detail.name d)) (details res)
                         = map (\<lambda>r. (recipient.phone r, recipient.name r)) recipients
                else sent res = 0 \<and> details res = []))
         \<and> (\<exists>res w'. sendBulkEmails_via esend eh recipients c onProgress ew = (Inr res, w')
            \<and> sent res + failed res = length recipients
            \<and> (if fst (email_prepared eh (service ew))
                then length (details res) = length recipients
                     \<and> map (\<lambda>d. (email_detail.email d, email_detail.name d)) (details res)
                         = map (\<lambda>r. (recipient.email r, recipient.name r)) recipients
                else sent res = 0 \<and> details res = []))"
proof
  show "\<exists>res w'. sendBulkWhatsApp_via send h recipients c onProgress w = (Inr res, w')
            \<and> sent res + failed res = length recipients
            \<and> (if isWhatsAppConfigured h = Inr True
                then length (details res) = length recipients
                     \<and> map (\<lambda>d. (wa_detail.phone d, wa_detail.name d)) (details res)
                         = map (\<lambda>r. (recipient.phone r, recipient.name r)) recipients
                else sent res = 0 \<and> details res = [])"
  proof (cases "isWhatsAppConfigured h = Inr True")
    case True
    obtain res w' where run:
      "sendBulkWhatsApp_via send h recipients c onProgress w = (Inr res, w')"
      "sent res + failed res = length recipients"
      "map (\<lambda>d. (wa_detail.phone d, wa_detail.name d)) (details res)
         = map (\<lambda>r. (recipient.phone r, recipient.name r)) recipients"
      using wa_via_run [OF True assms, of send recipients c w] by auto
    have "length (map (\<lambda>d. (wa_detail.phone d, wa_detail.name d)) (details res))
            = length recipients"
      by (simp only: run(3) length_map)
    then have "length (details res) = length recipients"
      by simp
    with run True show ?thesis by simp
  next
    case False
    then have "isWhatsAppConfigured h = Inr False"
      using isWhatsAppConfigured_returns [of h] by auto
    then show ?thesis
      using False by (simp add: wa_via_stopped)
  qed
next
  show "\<exists>res w'. sendBulkEmails_via esend eh recipients c onProgress ew = (Inr res, w')
            \<and> sent res + failed res = length recipients
            \<and> (if fst (email_prepared eh (service ew))
                then length (details res) = length recipients
                     \<and> map (\<lambda>d. (email_detail.email d, email_detail.name d)) (details res)
                         = map (\<lambda>r. (recipient.email r, recipient.name r)) recipients
                else sent res = 0 \<and> details res = [])"
  proof (cases "fst (email_prepared eh (service ew))")
    case True
    obtain res w' where run:
      "sendBulkEmails_via esend eh recipients c onProgress ew = (Inr res, w')"
      "sent res + failed res = length recipients"
      "map (\<lambda>d. (email_detail.email d, email_detail.name d)) (details res)
         = map (\<lambda>r. (recipient.email r, recipient.name r)) recipients"
      using email_via_run [OF True assms, of esend recipients c] by auto
    have "length (map (\<lambda>d. (email_detail.email d, email_detail.name d)) (details res))
            = length recipients"
      by (simp only: run(3) length_map)
    then have "length (details res) = length recipients"
      by simp
    with run True show ?thesis by simp
  next
    case False
    then show ?thesis
      by (simp add: email_via_stopped)
  qed
qed

theorem bulk_results_cover_every_recipient_witness:
  "returns_normally (Some quiet)
   \<and> (\<exists>res w'. sendBulkWhatsApp_via (sendWhatsAppMessage demo_host) demo_host [maria, paul]
                  demo_campaign (Some quiet) idle = (Inr res, w')
          \<and> sent res + failed res = 2
          \<and> map (\<lambda>d. (wa_detail.phone d, wa_detail.name d)) (details res)
              = [(recipient.phone maria, recipient.name maria),
                 (recipient.phone paul, recipient.name paul)])
   \<and> (\<exists>res w'. sendBulkEmails_via (sendEmail demo_email_host) demo_email_host [maria, paul]
                  demo_campaign (Some quiet) email_idle = (Inr res, w')
          \<and> sent res + failed res = 2
          \<and> map (\<lambda>d. (email_detail.email d, email_detail.name d)) (details res)
              = [(recipient.email maria, recipient.name maria),
                 (recipient.email paul, recipient.name paul)])"
  using bulk_results_cover_every_recipient [OF returns_normally_examples(2),
      of "sendWhatsAppMessage demo_host" demo_host "[maria, paul]" demo_campaign idle
         "sendEmail demo_email_host" demo_email_host email_idle]
    returns_normally_examples(2) demo_host_configured demo_email_host_prepared
  by auto

text \<open>
  C1 as stated fails where it says that the result has one entry of \<open>details\<close> for each
  recipient also when the configuration is incomplete: with no credentials and one
  recipient the result has \<open>failed = 1\<close> and no entry at all.
\<close>

theorem bulk_details_counterexample:
  "sendBulkWhatsApp bare_host [maria] demo_campaign None idle =
     (Inr \<lparr>sent = 0, failed = 1,
            errors = [js ''WhatsApp API non configur'' @ [0xE9]], details = []\<rparr>, idle)
   \<and> length (details (\<lparr>sent = 0, failed = 1,
                         errors = [js ''WhatsApp API non configur'' @ [0xE9]],
                         details = []\<rparr> :: wa_detail results))
       \<noteq> length [maria]"
  by (simp add: sendBulkWhatsApp_def wa_via_stopped bare_host_not_configured)

text \<open>
  C6, as the code has it, for a run whose callback returns. When the run gets past its
  configuration check, there is one single send for each recipient, and the events
  without the calls of \<open>onProgress\<close> are these sends in the order of the recipients,
  each but the last followed by one wait of 500 ms (\<open>sendBulkWhatsApp\<close>) or 200 ms
  (\<open>sendBulkEmails\<close>): one wait less than there are recipients, none after the last
  send, none at all for at most one recipient. When the check stops the run, there is no
  event, and so no wait, however many recipients there are.
\<close>

theorem bulk_waits_between_sends:
  assumes "returns_normally onProgress"
  shows "(\<exists>res w' tr. sendBulkWhatsApp_via send h recipients c onProgress w = (Inr res, w')
            \<and> events w' = events w @ tr
            \<and> (if isWhatsAppConfigured h = Inr True
                then attempts tr = map (\<lambda>r. wa_params_of r c) recipients
                     \<and> delays tr = replicate (length recipients - 1) 500
                     \<and> filter (\<lambda>e. \<not> is_progress e) tr
                         = concat (map (\<lambda>(i, r). Attempt (wa_params_of r c)
                                           # (if i < length recipients - 1 then [Delay 500]
                                              else []))
                                     (enumerate 0 recipients))
                else tr = [])
            \<and> (length recipients \<le> 1 \<longrightarrow> delays tr = []))
         \<and> (\<exists>res w' tr. sendBulkEmails_via esend eh recipients c onProgress ew = (Inr res, w')
            \<and> events w' = events ew @ tr
            \<and> (if fst (email_prepared eh (service ew))
                then attempts tr = map (\<lambda>r. email_params_of r c) recipients
                     \<and> delays tr = replicate (length recipients - 1) 200
                     \<and> filter (\<lambda>e. \<not> is_progress e) tr
                         = concat (map (\<lambda>(i, r). Attempt (email_params_of r c)
                                           # (if i < length recipients - 1 then [Delay 200]
                                              else []))
                                     (enumerate 0 recipients))
                else tr = [])
            \<and> (length recipients \<le> 1 \<longrightarrow> delays tr = []))"
proof
  show "\<exists>res w' tr. sendBulkWhatsApp_via send h recipients c onProgress w = (Inr res, w')
            \<and> events w' = events w @ tr
            \<and> (if isWhatsAppConfigured h = Inr True
                then attempts tr = map (\<lambda>r. wa_params_of r c) recipients
                     \<and> delays tr = replicate (length recipients - 1) 500
                     \<and> filter (\<lambda>e. \<not> is_progress e) tr
                         = concat (map (\<lambda>(i, r). Attempt (wa_params_of r c)
                                           # (if i < length recipients - 1 then [Delay 500]
                                              else []))
                                     (enumerate 0 recipients))
                else tr = [])
            \<and> (length recipients \<le> 1 \<longrightarrow> delays tr = [])"
  proof (cases "isWhatsAppConfigured h = Inr True")
    case True
    define tr where
      "tr = concat (map (step_events onProgress recipient.phone (\<lambda>r. wa_params_of r c)
                           500 (length recipients)) (enumerate 0 recipients))
            @ (progress_event onProgress (length recipients) (length recipients)
                 completed None :: wa_params event list)"
    obtain res w' where run:
      "sendBulkWhatsApp_via send h recipients c onProgress w = (Inr res, w')"
      "events w' = events w @ tr"
      using wa_via_run [OF True assms, of send recipients c w] by (auto simp: tr_def)
    have a: "attempts tr = map (\<lambda>r. wa_params_of r c) recipients"
      by (simp add: tr_def attempts_append attempts_steps progress_event_projections)
    have d: "delays tr = replicate (length recipients - 1) 500"
      by (simp add: tr_def delays_append delays_steps progress_event_projections)
    have f: "filter (\<lambda>e. \<not> is_progress e) tr
               = concat (map (\<lambda>(i, r). Attempt (wa_params_of r c)
                                 # (if i < length recipients - 1 then [Delay 500] else []))
                           (enumerate 0 recipients))"
      by (simp add: tr_def without_progress_steps progress_event_projections)
    from run a d f True show ?thesis by auto
  next
    case False
    then have "isWhatsAppConfigured h = Inr False"
      using isWhatsAppConfigured_returns [of h] by auto
    then show ?thesis
      using False by (simp add: wa_via_stopped)
  qed
next
  show "\<exists>res w' tr. sendBulkEmails_via esend eh recipients c onProgress ew = (Inr res, w')
            \<and> events w' = events ew @ tr
            \<and> (if fst (email_prepared eh (service ew))
                then attempts tr = map (\<lambda>r. email_params_of r c) recipients
                     \<and> delays tr = replicate (length recipients - 1) 200
                     \<and> filter (\<lambda>e. \<not> is_progress e) tr
                         = concat (map (\<lambda>(i, r). Attempt (email_params_of r c)
                                           # (if i < length recipients - 1 then [Delay 200]
                                              else []))
                                     (enumerate 0 recipients))
                else tr = [])
            \<and> (length recipients \<le> 1 \<longrightarrow> delays tr = [])"
  proof (cases "fst (email_prepared eh (service ew))")
    case True
    define tr where
      "tr = concat (map (step_events onProgress recipient.email (\<lambda>r. email_params_of r c)
                           200 (length recipients)) (enumerate 0 recipients))
            @ (progress_event onProgress (length recipients) (length recipients)
                 completed None :: email_params event list)"
    obtain res w' where run:
      "sendBulkEmails_via esend eh recipients c onProgress ew = (Inr res, w')"
      "events w' = events ew @ tr"
      using email_via_run [OF True assms, of esend recipients c] by (auto simp: tr_def)
    have a: "attempts tr = map (\<lambda>r. email_params_of r c) recipients"
      by (simp add: tr_def attempts_append attempts_steps progress_event_projections)
    have d: "delays tr = replicate (length recipients - 1) 200"
      by (simp add: tr_def delays_append delays_steps progress_event_projections)
    have f: "filter (\<lambda>e. \<not> is_progress e) tr
               = concat (map (\<lambda>(i, r). Attempt (email_params_of r c)
                                 # (if i < length recipients - 1 then [Delay 200] else []))
                           (enumerate 0 recipients))"
      by (simp add: tr_def without_progress_steps progress_event_projections)
    from run a d f True show ?thesis by auto
  next
    case False
    then show ?thesis
      by (simp add: email_via_stopped)
  qed
qed

theorem bulk_waits_between_sends_witness:
  "returns_normally (Some quiet)
   \<and> (\<exists>res w' tr. sendBulkWhatsApp_via (sendWhatsAppMessage demo_host) demo_host [maria, paul]
                     demo_campaign (Some quiet) idle = (Inr res, w')
          \<and> events w' = events idle @ tr
          \<and> delays tr = [500]
          \<and> filter (\<lambda>e. \<not> is_progress e) tr
              = [Attempt (wa_params_of maria demo_campaign), Delay 500,
                 Attempt (wa_params_of paul demo_campaign)])
   \<and> (\<exists>res w' tr. sendBulkEmails_via (sendEmail demo_email_host) demo_email_host
                     [maria, paul] demo_campaign (Some quiet) email_idle = (Inr res, w')
          \<and> events w' = events email_idle @ tr
          \<and> delays tr = [200]
          \<and> filter (\<lambda>e. \<not> is_progress e) tr
              = [Attempt (email_params_of maria demo_campaign), Delay 200,
                 Attempt (email_params_of paul demo_campaign)])"
  using bulk_waits_between_sends [OF returns_normally_examples(2),
      of "sendWhatsAppMessage demo_host" demo_host "[maria, paul]" demo_campaign idle
         "sendEmail demo_email_host" demo_email_host email_idle]
    returns_normally_examples(2) demo_host_configured demo_email_host_prepared
  by (auto simp: numeral_2_eq_2)

text \<open>
  C6 as stated fails for a run that the configuration check stops: with no credentials
  and two recipients the run returns its result without a single wait, where the claim
  has one.
\<close>

theorem bulk_waits_counterexample:
  "sendBulkWhatsApp bare_host [maria, paul] demo_campaign None idle =
     (Inr \<lparr>sent = 0, failed = 2,
            errors = [js ''WhatsApp API non configur'' @ [0xE9]], details = []\<rparr>, idle)
   \<and> delays (events (snd (sendBulkWhatsApp bare_host [maria, paul] demo_campaign None idle)))
       = []
   \<and> length [maria, paul] - 1 = 1"
  by (simp add: sendBulkWhatsApp_def wa_via_stopped bare_host_not_configured idle_def)

text \<open>
  C7, as the code has it. Whatever the single send does, an error it throws for one
  recipient is caught and recorded exactly as the failure result with the same message
  would be: one more \<open>failed\<close>, the line \<open>address: message\<close> in \<open>errors\<close>, a
  \<open>failed\<close> entry in \<open>details\<close>; the whole run is the same as with the send whose
  throws are turned into such results. The run returns its result whenever the callback
  is absent or returns from every call. The call of \<open>onProgress\<close> is outside the \<open>try\<close>:
  what the callback throws is not contained.
\<close>

theorem sendBulkWhatsApp_contains_send_errors:
  assumes "returns_normally onProgress"
  shows "(\<exists>res w'. sendBulkWhatsApp_via send h recipients c onProgress w = (Inr res, w'))
         \<and> sendBulkWhatsApp_via send h recipients c onProgress w
             = sendBulkWhatsApp_via (normalized send) h recipients c onProgress w
         \<and> wa_record r (Inl (Error m)) results
             = wa_record r (Inr \<lparr>success = False, sid = None, status = None,
                                  error = Some m, code = None\<rparr>) results
         \<and> wa_record r (Inl (Error m)) results
             = results\<lparr>failed := failed results + 1,
                 errors := errors results @ [ToString (recipient.phone r) @ js '': '' @ m],
                 details := details results @
                   [\<lparr>phone = recipient.phone r, name = recipient.name r,
                     status = js ''failed'', sid = None, error = Some m\<rparr>]\<rparr>"
proof -
  have "\<exists>res w'. sendBulkWhatsApp_via send h recipients c onProgress w = (Inr res, w')"
  proof (cases "isWhatsAppConfigured h = Inr True")
    case True
    then show ?thesis
      using wa_via_run [OF True assms, of send recipients c w] by blast
  next
    case False
    then have "isWhatsAppConfigured h = Inr False"
      using isWhatsAppConfigured_returns [of h] by auto
    then show ?thesis
      by (simp add: wa_via_stopped)
  qed
  moreover have "sendBulkWhatsApp_via send h recipients c onProgress w
                   = sendBulkWhatsApp_via (normalized send) h recipients c onProgress w"
  proof -
    obtain b where "isWhatsAppConfigured h = Inr b"
      using isWhatsAppConfigured_returns by blast
    then show ?thesis
      by (cases b) (simp_all add: sendBulkWhatsApp_via_def wa_loop_normalized Let_def)
  qed
  moreover have "wa_record r (Inl (Error m)) results
                   = wa_record r (Inr \<lparr>success = False, sid = None, status = None,
                                        error = Some m, code = None\<rparr>) results"
    by (simp add: wa_record_def ToString_def)
  moreover have "wa_record r (Inl (Error m)) results
             = results\<lparr>failed := failed results + 1,
                 errors := errors results @ [ToString (recipient.phone r) @ js '': '' @ m],
                 details := details results @
                   [\<lparr>phone = recipient.phone r, name = recipient.name r,
                     status = js ''failed'', sid = None, error = Some m\<rparr>]\<rparr>"
    by (simp add: wa_record_def)
  ultimately show ?thesis by blast
qed

theorem sendBulkWhatsApp_contains_send_errors_witness:
  "returns_normally None
   \<and> (\<exists>res w'. sendBulkWhatsApp_via refusing demo_host [maria, paul] demo_campaign None idle
                  = (Inr res, w'))
   \<and> sendBulkWhatsApp_via refusing demo_host [maria, paul] demo_campaign None idle
       = sendBulkWhatsApp_via (normalized refusing) demo_host [maria, paul] demo_campaign
           None idle
   \<and> fst (sendBulkWhatsApp_via refusing demo_host [maria] demo_campaign None idle)
       = Inr \<lparr>sent = 0, failed = 1,
               errors = [js ''079 123 45 67: refused''],
               details = [\<lparr>phone = Some (js ''079 123 45 67''),
                           name = Some (js ''Maria Lopez''), status = js ''failed'',
                           sid = None, error = Some (js ''refused'')\<rparr>]\<rparr>"
proof -
  have "fst (sendBulkWhatsApp_via refusing demo_host [maria] demo_campaign None idle)
       = Inr \<lparr>sent = 0, failed = 1,
               errors = [js ''079 123 45 67: refused''],
               details = [\<lparr>phone = Some (js ''079 123 45 67''),
                           name = Some (js ''Maria Lopez''), status = js ''failed'',
                           sid = None, error = Some (js ''refused'')\<rparr>]\<rparr>"
    by code_simp
  moreover note run = sendBulkWhatsApp_contains_send_errors [OF returns_normally_examples(1),
      of refusing demo_host "[maria, paul]" demo_campaign idle]
  from run have "\<exists>res w'. sendBulkWhatsApp_via refusing demo_host [maria, paul] demo_campaign
                             None idle = (Inr res, w')"
    by blast
  moreover from run
  have "sendBulkWhatsApp_via refusing demo_host [maria, paul] demo_campaign None idle
          = sendBulkWhatsApp_via (normalized refusing) demo_host [maria, paul] demo_campaign
              None idle"
    by blast
  ultimately show ?thesis
    using returns_normally_examples(1) by blast
qed

text \<open>
  C7 as stated fails for a callback that throws: with complete credentials, one
  recipient and a callback that throws, the first call of \<open>onProgress\<close> throws before
  the \<open>try\<close> is entered, and \<open>sendBulkWhatsApp\<close> rejects with that error instead of
  returning a result.
\<close>

theorem sendBulkWhatsApp_throwing_callback_counterexample:
  "sendBulkWhatsApp demo_host [maria] demo_campaign (Some throwing) idle =
     (Inl (Error (js ''boom'')),
      \<lparr>events = [Progress 1 1 sending (Some (js ''Maria Lopez''))], service = []\<rparr>)"
  by code_simp

lemma wa_loop_agree:
  "(\<forall>(k, r) \<in> set (enumerate i rs).
      f (k + 1) tot sending (js_or (recipient.name r) (recipient.phone r))
        = g (k + 1) tot sending (js_or (recipient.name r) (recipient.phone r))) \<Longrightarrow>
   sendBulkWhatsApp_loop send c (Some f) tot i rs results w
     = sendBulkWhatsApp_loop send c (Some g) tot i rs results w"
proof (induction rs arbitrary: i results w)
  case Nil
  then show ?case by simp
next
  case (Cons r rest)
  from Cons.prems
  have here: "f (i + 1) tot sending (js_or (recipient.name r) (recipient.phone r))
               = g (i + 1) tot sending (js_or (recipient.name r) (recipient.phone r))"
    and later: "\<forall>(k, r) \<in> set (enumerate (Suc i) rest).
      f (k + 1) tot sending (js_or (recipient.name r) (recipient.phone r))
        = g (k + 1) tot sending (js_or (recipient.name r) (recipient.phone r))"
    by simp_all
  show ?case
  proof (cases "g (i + 1) tot sending (js_or (recipient.name r) (recipient.phone r))")
    case (Inl e)
    with here show ?thesis
      by (simp add: notify_def)
  next
    case (Inr u)
    with here show ?thesis
      using Cons.IH [OF later]
      by (simp add: notify_def Let_def split_beta)
  qed
qed

lemma wa_via_agree:
  assumes "\<forall>(k, r) \<in> set (enumerate 0 recipients).
      f (k + 1) (length recipients) sending (js_or (recipient.name r) (recipient.phone r))
        = g (k + 1) (length recipients) sending
            (js_or (recipient.name r) (recipient.phone r))"
    and "f (length recipients) (length recipients) completed None
           = g (length recipients) (length recipients) completed None"
  shows "sendBulkWhatsApp_via send h recipients c (Some f) w
           = sendBulkWhatsApp_via send h recipients c (Some g) w"
proof -
  obtain b where "isWhatsAppConfigured h = Inr b"
    using isWhatsAppConfigured_returns by blast
  moreover note loop = wa_loop_agree [where f = f and g = g and i = 0 and rs = recipients
      and tot = "length recipients", OF assms(1)]
  ultimately show ?thesis
    using assms(2)
    by (cases b)
       (simp_all add: sendBulkWhatsApp_via_def Let_def notify_def
          split: prod.splits sum.splits)
qed

lemma wa_progress_calls_returning:
  assumes "isWhatsAppConfigured h = Inr True" and "returns_normally (Some f)"
  shows "\<exists>res w' tr. sendBulkWhatsApp_via send h recipients c (Some f) w = (Inr res, w')
           \<and> events w' = events w @ tr
           \<and> progress_calls tr
               = map (\<lambda>(i, r). (i + 1, length recipients, sending,
                                js_or (recipient.name r) (recipient.phone r)))
                   (enumerate 0 recipients)
                 @ [(length recipients, length recipients, completed, None)]
           \<and> length (progress_calls tr) = length recipients + 1
           \<and> map fst (progress_calls tr) = map Suc [0..<length recipients] @ [length recipients]
           \<and> filter (\<lambda>e. \<not> is_delay e) tr
               = concat (map (\<lambda>(i, r). [Progress (i + 1) (length recipients) sending
                                            (js_or (recipient.name r) (recipient.phone r)),
                                          Attempt (wa_params_of r c)])
                           (enumerate 0 recipients))
                 @ [Progress (length recipients) (length recipients) completed None]"
proof -
  define tr where
    "tr = concat (map (step_events (Some f) recipient.phone (\<lambda>r. wa_params_of r c)
                         500 (length recipients)) (enumerate 0 recipients))
          @ (progress_event (Some f) (length recipients) (length recipients)
               completed None :: wa_params event list)"
  obtain res w' where run:
    "sendBulkWhatsApp_via send h recipients c (Some f) w = (Inr res, w')"
    "events w' = events w @ tr"
    using wa_via_run [OF assms, of send recipients c w] by (auto simp: tr_def)
  have p: "progress_calls tr
             = map (\<lambda>(i, r). (i + 1, length recipients, sending,
                              js_or (recipient.name r) (recipient.phone r)))
                 (enumerate 0 recipients)
               @ [(length recipients, length recipients, completed, None)]"
    by (simp add: tr_def progress_calls_append progress_calls_steps progress_event_Some)
  have l: "length (progress_calls tr) = length recipients + 1"
    by (simp add: p)
  have "map fst (map (\<lambda>(i, r). (i + 1, length recipients, sending,
                                js_or (recipient.name r) (recipient.phone r)))
                   (enumerate 0 recipients))
          = map (Suc \<circ> fst) (enumerate 0 recipients)"
    by (simp add: case_prod_beta comp_def)
  also have "\<dots> = map Suc (map fst (enumerate 0 recipients))"
    by (rule map_map [symmetric])
  also have "\<dots> = map Suc [0..<length recipients]"
    by (simp only: map_fst_enumerate add_0)
  finally have "map fst (map (\<lambda>(i, r). (i + 1, length recipients, sending,
                                js_or (recipient.name r) (recipient.phone r)))
                   (enumerate 0 recipients))
          = map Suc [0..<length recipients]" .
  then have m: "map fst (progress_calls tr)
                  = map Suc [0..<length recipients] @ [length recipients]"
    by (simp add: p)
  have d: "filter (\<lambda>e. \<not> is_delay e) tr
             = concat (map (\<lambda>(i, r). [Progress (i + 1) (length recipients) sending
                                          (js_or (recipient.name r) (recipient.phone r)),
                                        Attempt (wa_params_of r c)])
                         (enumerate 0 recipients))
               @ [Progress (length recipients) (length recipients) completed None]"
    by (simp add: tr_def without_delays_steps progress_event_Some)
  from run p l m d show ?thesis by blast
qed

text \<open>
  C8, as the code has it: with a complete configuration and a callback that returns from
  each call the run makes of it, a run over N recipients calls the callback N + 1 times:
  for the recipient at index \<open>i\<close> with \<open>(i + 1, N, sending, name or phone)\<close>, in the
  order of the recipients and each time right before the single send for that recipient,
  and once at the end with \<open>(N, N, completed)\<close>. The first arguments are 1, 2, ..., N
  and then N.
\<close>

theorem sendBulkWhatsApp_progress_calls:
  assumes "isWhatsAppConfigured h = Inr True"
    and "\<forall>(i, r) \<in> set (enumerate 0 recipients).
           f (i + 1) (length recipients) sending
             (js_or (recipient.name r) (recipient.phone r)) = Inr ()"
    and "f (length recipients) (length recipients) completed None = Inr ()"
  shows "\<exists>res w' tr. sendBulkWhatsApp_via send h recipients c (Some f) w = (Inr res, w')
           \<and> events w' = events w @ tr
           \<and> progress_calls tr
               = map (\<lambda>(i, r). (i + 1, length recipients, sending,
                                js_or (recipient.name r) (recipient.phone r)))
                   (enumerate 0 recipients)
                 @ [(length recipients, length recipients, completed, None)]
           \<and> length (progress_calls tr) = length recipients + 1
           \<and> map fst (progress_calls tr) = map Suc [0..<length recipients] @ [length recipients]
           \<and> filter (\<lambda>e. \<not> is_delay e) tr
               = concat (map (\<lambda>(i, r). [Progress (i + 1) (length recipients) sending
                                            (js_or (recipient.name r) (recipient.phone r)),
                                          Attempt (wa_params_of r c)])
                           (enumerate 0 recipients))
                 @ [Progress (length recipients) (length recipients) completed None]"
proof -
  define g :: callback where "g = (\<lambda>i t p l. Inr ())"
  have g: "returns_normally (Some g)"
    by (simp add: returns_normally_def g_def)
  have "\<forall>(k, r) \<in> set (enumerate 0 recipients).
          f (k + 1) (length recipients) sending
            (js_or (recipient.name r) (recipient.phone r))
          = g (k + 1) (length recipients) sending
              (js_or (recipient.name r) (recipient.phone r))"
    using assms(2) by (auto simp: g_def)
  moreover have "f (length recipients) (length recipients) completed None
                   = g (length recipients) (length recipients) completed None"
    using assms(3) by (simp add: g_def)
  ultimately have "sendBulkWhatsApp_via send h recipients c (Some f) w
                     = sendBulkWhatsApp_via send h recipients c (Some g) w"
    by (rule wa_via_agree)
  then show ?thesis
    using wa_progress_calls_returning [OF assms(1) g, of send recipients c w]
    by simp
qed

theorem sendBulkWhatsApp_progress_calls_witness:
  "isWhatsAppConfigured demo_host = Inr True
   \<and> quiet 1 2 sending (Some (js ''Maria Lopez'')) = Inr ()
   \<and> quiet 2 2 sending (Some (js ''12345'')) = Inr ()
   \<and> quiet 2 2 completed None = Inr ()
   \<and> (\<exists>res w' tr. sendBulkWhatsApp_via (sendWhatsAppMessage demo_host) demo_host [maria, paul]
                     demo_campaign (Some quiet) idle = (Inr res, w')
          \<and> events w' = events idle @ tr
          \<and> progress_calls tr
              = [(1, 2, sending, Some (js ''Maria Lopez'')), (2, 2, sending, Some (js ''12345'')),
                 (2, 2, completed, None)])"
proof -
  have labels:
    "js_or (recipient.name maria) (recipient.phone maria) = Some (js ''Maria Lopez'')"
    "js_or (recipient.name paul) (recipient.phone paul) = Some (js ''12345'')"
    by (simp_all add: maria_def paul_def js_or_def truthy_def js_def)
  have calls: "\<forall>(i, r) \<in> set (enumerate 0 [maria, paul]).
           quiet (i + 1) (length [maria, paul]) sending
             (js_or (recipient.name r) (recipient.phone r)) = Inr ()"
    by (simp add: quiet_def)
  have last: "quiet (length [maria, paul]) (length [maria, paul]) completed None = Inr ()"
    by (simp add: quiet_def)
  show ?thesis
    using sendBulkWhatsApp_progress_calls [where f = quiet and h = demo_host
        and recipients = "[maria, paul]" and send = "sendWhatsAppMessage demo_host"
        and c = demo_campaign and w = idle, OF demo_host_configured calls last]
      demo_host_configured labels
    by (auto simp: numeral_2_eq_2 quiet_def)
qed

text \<open>
  C8 as stated fails for a supplied callback that throws: with complete credentials and
  two recipients, the first call of \<open>onProgress\<close> throws, the run ends there, and the
  callback has been called once, not three times.
\<close>

theorem sendBulkWhatsApp_progress_calls_counterexample:
  "isWhatsAppConfigured demo_host = Inr True
   \<and> fst (sendBulkWhatsApp demo_host [maria, paul] demo_campaign (Some throwing) idle)
       = Inl (Error (js ''boom''))
   \<and> progress_calls
        (events (snd (sendBulkWhatsApp demo_host [maria, paul] demo_campaign
                        (Some throwing) idle)))
       = [(1, 2, sending, Some (js ''Maria Lopez''))]
   \<and> length (progress_calls
        (events (snd (sendBulkWhatsApp demo_host [maria, paul] demo_campaign
                        (Some throwing) idle))))
       \<noteq> length [maria, paul] + 1"
  by code_simp

end
